theory Spec2Isabelle
  imports Main "HOL-Library.Sublist"
begin

section \<open>The trivia backend: values, store and outcomes\<close>

text \<open>
  The handlers of \<^verbatim>\<open>backend/flaskr/__init__.py\<close> exchange Python values with the
  framework: the parsed JSON body of a request comes in, the dictionary handed to
  \<^verbatim>\<open>jsonify\<close> goes out. Both are values of \<open>pyval\<close>; a dictionary is an association
  list in insertion order. Floating point numbers are left out.
\<close>

datatype pyval =
    PNone
  | PBool bool
  | PInt int
  | PStr string
  | PList "pyval list"
  | PDict "(pyval \<times> pyval) list"

type_synonym payload = "(string \<times> pyval) list"

text \<open>\<^verbatim>\<open>d.get(key, default)\<close> on a dictionary with string keys.\<close>

definition dict_get :: "payload \<Rightarrow> string \<Rightarrow> pyval \<Rightarrow> pyval" where
  "dict_get d k dflt = (case map_of d k of None \<Rightarrow> dflt | Some v \<Rightarrow> v)"

text \<open>\<^verbatim>\<open>d[k] = v\<close>: an existing key keeps its place, a new key goes to the end.\<close>

fun dict_set :: "(pyval \<times> pyval) list \<Rightarrow> pyval \<Rightarrow> pyval \<Rightarrow> (pyval \<times> pyval) list" where
  "dict_set [] k v = [(k, v)]"
| "dict_set ((k', v') # d) k v = (if k' = k then (k, v) # d else (k', v') # dict_set d k v)"

text \<open>
  Modelled from the spec: the classes \<^verbatim>\<open>Question\<close> and \<^verbatim>\<open>Category\<close> of the module
  \<^verbatim>\<open>models\<close>, which the handlers import. The fields and their types are those of the
  data model: a question has an integer id, a question text, an answer text, an integer
  difficulty and an integer category; a category has an integer id and a type label.
\<close>

record Question =
  q_id :: int
  q_question :: string
  q_answer :: string
  q_difficulty :: int
  q_category :: int

record Category =
  c_id :: int
  c_type :: string

text \<open>
  Modelled from the spec: the persisted state, two tables. The rows of a table are kept in
  the order in which a query without \<^verbatim>\<open>order_by\<close> delivers them.
\<close>

record store =
  questions_tbl :: "Question list"
  categories_tbl :: "Category list"

text \<open>
  Modelled from the spec: \<^verbatim>\<open>Question.format\<close>, the dictionary of the five fields
  of a question.
\<close>

definition format_question :: "Question \<Rightarrow> pyval" where
  "format_question q = PDict
     [(PStr ''id'', PInt (q_id q)),
      (PStr ''question'', PStr (q_question q)),
      (PStr ''answer'', PStr (q_answer q)),
      (PStr ''category'', PInt (q_category q)),
      (PStr ''difficulty'', PInt (q_difficulty q))]"

text \<open>Reading a key of a dictionary value; \<open>None\<close> for a missing key or a non-dictionary.\<close>

definition field :: "pyval \<Rightarrow> string \<Rightarrow> pyval option" where
  "field v k = (case v of PDict d \<Rightarrow> map_of d (PStr k) | _ \<Rightarrow> None)"

text \<open>
  A request ends in one of three ways: the handler returns a body with a status, it
  calls \<^verbatim>\<open>abort(code)\<close>, or a Python exception leaves it uncaught. The registered error
  handlers turn the last two into the fixed error bodies.
\<close>

datatype py_exception =
  ValueError | AttributeError | KeyError | TypeError | MultipleResultsFound | DBAPIError

datatype failure = Abort nat | Unhandled py_exception

type_synonym result = "failure + nat \<times> payload"

definition status_code :: "result \<Rightarrow> nat" where
  "status_code r = (case r of
       Inl (Abort code) \<Rightarrow> code
     | Inl (Unhandled e) \<Rightarrow> 500
     | Inr (code, body) \<Rightarrow> code)"

definition error_message :: "nat \<Rightarrow> string" where
  "error_message code =
     (if code = 400 then ''Bad request error''
      else if code = 404 then ''Resource not found''
      else if code = 422 then ''Unprocessable entity''
      else ''An error has occured, please try again'')"

definition error_body :: "nat \<Rightarrow> payload" where
  "error_body code =
     [(''success'', PBool False), (''error'', PInt (int code)),
      (''message'', PStr (error_message code))]"

section \<open>The question store adapter\<close>

text \<open>
  Modelled from the spec: the query interface of the persistence layer, as the handlers
  use it. \<^verbatim>\<open>Question.query.all()\<close> delivers every row,
  \<^verbatim>\<open>order_by(Question.id)\<close> sorts by ascending id, \<^verbatim>\<open>filter_by(category=c)\<close>
  keeps the rows of one category, \<^verbatim>\<open>query.get(id)\<close> looks a row up by its primary
  key and \<^verbatim>\<open>one_or_none()\<close> delivers the only row of a result, nothing for an empty
  result, and raises for more than one row.
\<close>

definition query_all :: "store \<Rightarrow> Question list" where
  "query_all s = questions_tbl s"

definition query_order_by_id :: "store \<Rightarrow> Question list" where
  "query_order_by_id s = sort_key q_id (questions_tbl s)"

definition query_filter_by_category :: "store \<Rightarrow> int \<Rightarrow> Question list" where
  "query_filter_by_category s c = filter (\<lambda>q. q_category q = c) (questions_tbl s)"

definition query_get :: "store \<Rightarrow> int \<Rightarrow> Question option" where
  "query_get s i = find (\<lambda>q. q_id q = i) (questions_tbl s)"

definition categories_all :: "store \<Rightarrow> Category list" where
  "categories_all s = categories_tbl s"

definition categories_order_by_id :: "store \<Rightarrow> Category list" where
  "categories_order_by_id s = sort_key c_id (categories_tbl s)"

definition one_or_none :: "'a list \<Rightarrow> py_exception + 'a option" where
  "one_or_none rows = (case rows of
       [] \<Rightarrow> Inr None
     | [r] \<Rightarrow> Inr (Some r)
     | _ \<Rightarrow> Inl MultipleResultsFound)"

text \<open>
  Modelled from the spec: \<^verbatim>\<open>Question.delete\<close> removes the row with the question's id
  for good.
\<close>

definition delete_row :: "store \<Rightarrow> Question \<Rightarrow> store" where
  "delete_row s q = s\<lparr>questions_tbl := filter (\<lambda>r. q_id r \<noteq> q_id q) (questions_tbl s)\<rparr>"

text \<open>
  Modelled from the spec: constructing a question and \<^verbatim>\<open>Question.insert\<close>. The store
  assigns the id, one that no stored question has. Whether the storage engine takes the
  four values of a request, and as which text and integer values it stores them, is not
  said by the spec, which treats the engine as an opaque service: it is the parameter
  \<open>engine\<close>, which gives the values as the columns of the data model hold them, or
  nothing when persisting faults, which the handler sees as an exception.
\<close>

type_synonym engine = "pyval \<times> pyval \<times> pyval \<times> pyval \<rightharpoonup> string \<times> string \<times> int \<times> int"

definition fresh_id :: "Question list \<Rightarrow> int" where
  "fresh_id qs = fold max (map q_id qs) 0 + 1"

definition insert_row :: "engine \<Rightarrow> store \<Rightarrow> pyval \<Rightarrow> pyval \<Rightarrow> pyval \<Rightarrow> pyval \<Rightarrow> store option" where
  "insert_row engine s question answer difficulty category =
     (case engine (question, answer, difficulty, category) of
        None \<Rightarrow> None
      | Some (qt, an, di, ca) \<Rightarrow>
          Some (s\<lparr>questions_tbl := questions_tbl s @
            [\<lparr>q_id = fresh_id (questions_tbl s), q_question = qt, q_answer = an,
              q_difficulty = di, q_category = ca\<rparr>]\<rparr>))"

section \<open>The pagination helper\<close>

text \<open>
  Python's \<^verbatim>\<open>xs[start:end]\<close> for integer bounds: a negative bound counts from the end of
  the list, and every bound is clipped to the list.
\<close>

definition slice_bound :: "nat \<Rightarrow> int \<Rightarrow> nat" where
  "slice_bound n i = (if i < 0 then nat (max (i + int n) 0) else min (nat i) n)"

definition py_slice :: "'a list \<Rightarrow> int \<Rightarrow> int \<Rightarrow> 'a list" where
  "py_slice xs start end' =
     (let s = slice_bound (length xs) start;
          e = slice_bound (length xs) end'
      in take (e - s) (drop s xs))"

text \<open>
  Python's \<^verbatim>\<open>int(s)\<close> on a string of ASCII characters: the blanks around the number
  (tab, line feed, vertical tab, form feed, carriage return, space) are dropped, one sign
  may lead, and single underscores may stand between digits. \<open>None\<close> is the
  \<^verbatim>\<open>ValueError\<close>. What \<^verbatim>\<open>int\<close> makes of a string with other characters is
  decided by the Unicode database and is not part of \<open>py_int\<close>; the handlers below
  therefore take the conversion as their parameter \<open>conv\<close>, and \<open>py_int\<close> is the
  conversion at which the examples are run.
\<close>

definition is_space :: "char \<Rightarrow> bool" where
  "is_space c = (c \<in> set [CHR 0x09, CHR 0x0A, CHR 0x0B, CHR 0x0C, CHR 0x0D, CHR 0x20])"

definition strip :: "string \<Rightarrow> string" where
  "strip s = rev (dropWhile is_space (rev (dropWhile is_space s)))"

definition is_digit :: "char \<Rightarrow> bool" where
  "is_digit c = (48 \<le> (of_char c :: nat) \<and> (of_char c :: nat) \<le> 57)"

definition digit_val :: "char \<Rightarrow> nat" where
  "digit_val c = of_char c - 48"

fun parse_digits :: "nat \<Rightarrow> string \<Rightarrow> nat option" where
  "parse_digits acc [] = Some acc"
| "parse_digits acc (c # cs) =
     (if is_digit c then parse_digits (10 * acc + digit_val c) cs
      else if c = CHR ''_'' \<and> cs \<noteq> [] \<and> is_digit (hd cs) then parse_digits acc cs
      else None)"

definition parse_unsigned :: "string \<Rightarrow> nat option" where
  "parse_unsigned cs = (case cs of
       [] \<Rightarrow> None
     | d # _ \<Rightarrow> if is_digit d then parse_digits 0 cs else None)"

definition py_int :: "string \<Rightarrow> int option" where
  "py_int s = (case strip s of
       [] \<Rightarrow> None
     | c # cs \<Rightarrow>
         if c = CHR ''-'' then map_option (\<lambda>n. - int n) (parse_unsigned cs)
         else if c = CHR ''+'' then map_option int (parse_unsigned cs)
         else map_option int (parse_unsigned (c # cs)))"

text \<open>
  \<^verbatim>\<open>request.args.get('page', 1, type=int)\<close>: \<open>arg\<close> is the raw value of the query
  parameter, \<open>None\<close> when the request has none, and \<open>conv\<close> is the callable passed as
  \<^verbatim>\<open>type\<close>, Python's \<^verbatim>\<open>int\<close>, with \<open>None\<close> for its \<^verbatim>\<open>ValueError\<close>. The
  default is delivered for a missing parameter and also when the conversion raises
  \<^verbatim>\<open>ValueError\<close>.
\<close>

definition args_get_page :: "(string \<Rightarrow> int option) \<Rightarrow> string option \<Rightarrow> int" where
  "args_get_page conv arg = (case arg of
       None \<Rightarrow> 1
     | Some s \<Rightarrow> (case conv s of None \<Rightarrow> 1 | Some n \<Rightarrow> n))"

definition QUESTIONS_PER_PAGE :: int where
  "QUESTIONS_PER_PAGE = 10"

definition get_paginated_questions ::
  "(string \<Rightarrow> int option) \<Rightarrow> string option \<Rightarrow> Question list \<Rightarrow> int \<Rightarrow> pyval list"
where
  "get_paginated_questions conv arg questions num_of_questions =
     (let page = args_get_page conv arg;
          start = (page - 1) * num_of_questions;
          end' = start + num_of_questions
      in py_slice (map format_question questions) start end')"

section \<open>The handlers\<close>

text \<open>
  \<^verbatim>\<open>get_all_categories\<close>: the dictionary from category id to type label, filled in the
  order of the rows. The store of this model raises nothing, so the handler's
  \<^verbatim>\<open>abort(500)\<close> is not reached.
\<close>

definition categories_dict :: "Category list \<Rightarrow> (pyval \<times> pyval) list" where
  "categories_dict categories =
     fold (\<lambda>category d. dict_set d (PInt (c_id category)) (PStr (c_type category))) categories []"

definition get_all_categories :: "store \<Rightarrow> result" where
  "get_all_categories s =
     Inr (200, [(''success'', PBool True),
                (''categories'', PDict (categories_dict (categories_all s)))])"

text \<open>
  \<^verbatim>\<open>get_questions\<close>; \<open>arg\<close> is the raw \<^verbatim>\<open>page\<close> query parameter and \<open>conv\<close>
  the conversion of the pagination helper.
\<close>

definition get_questions :: "(string \<Rightarrow> int option) \<Rightarrow> store \<Rightarrow> string option \<Rightarrow> result" where
  "get_questions conv s arg =
     (let questions = query_order_by_id s;
          total_questions = length questions;
          categories = categories_order_by_id s;
          current_questions = get_paginated_questions conv arg questions QUESTIONS_PER_PAGE
      in if length current_questions = 0 then Inl (Abort 404)
         else Inr (200, [(''success'', PBool True),
                         (''total_questions'', PInt (int total_questions)),
                         (''categories'', PDict (categories_dict categories)),
                         (''questions'', PList current_questions)]))"

text \<open>
  \<^verbatim>\<open>delete_question\<close>: when the lookup finds nothing, \<^verbatim>\<open>question\<close> is
  \<^verbatim>\<open>None\<close>, the call of its \<^verbatim>\<open>delete\<close> raises, and the handler's
  \<^verbatim>\<open>except\<close> aborts with 422. The handler returns its result and the store it leaves.
\<close>

definition delete_question :: "store \<Rightarrow> int \<Rightarrow> result \<times> store" where
  "delete_question s i = (case query_get s i of
       None \<Rightarrow> (Inl (Abort 422), s)
     | Some question \<Rightarrow>
         (Inr (200, [(''success'', PBool True),
                     (''message'', PStr ''Question successfully deleted'')]),
          delete_row s question))"

text \<open>
  \<^verbatim>\<open>create_question\<close>: \<open>data\<close> is the JSON object of the request and \<open>engine\<close> the
  storage engine behind \<^verbatim>\<open>Question.insert\<close>. Each of the four values is compared
  with the empty string; a fault of the insertion is caught and aborts with 422.
\<close>

definition create_question :: "engine \<Rightarrow> store \<Rightarrow> payload \<Rightarrow> result \<times> store" where
  "create_question engine s data =
     (let question = dict_get data ''question'' (PStr '''');
          answer = dict_get data ''answer'' (PStr '''');
          difficulty = dict_get data ''difficulty'' (PStr '''');
          category = dict_get data ''category'' (PStr '''')
      in if question = PStr '''' \<or> answer = PStr '''' \<or> difficulty = PStr ''''
            \<or> category = PStr ''''
         then (Inl (Abort 422), s)
         else (case insert_row engine s question answer difficulty category of
                 Some s' \<Rightarrow>
                   (Inr (201, [(''success'', PBool True),
                               (''message'', PStr ''Question successfully created!'')]),
                    s')
               | None \<Rightarrow> (Inl (Abort 422), s)))"

text \<open>
  The \<^verbatim>\<open>ILIKE\<close> operator of the storage engine, which
  \<^verbatim>\<open>Question.question.ilike(pattern)\<close> stands for: the whole text has to match the
  pattern, in which \<^verbatim>\<open>%\<close> matches any run of characters, \<^verbatim>\<open>_\<close> matches any one
  character, a backslash makes the next character literal, and any other character
  matches itself in either case (ASCII letters here). The engine refuses a pattern
  that ends in a lone backslash, which the pattern of the search, ending in
  \<^verbatim>\<open>%\<close>, never does; \<open>like_match\<close> lets such a pattern match nothing.
\<close>

definition to_lower :: "char \<Rightarrow> char" where
  "to_lower c =
     (if 65 \<le> (of_char c :: nat) \<and> (of_char c :: nat) \<le> 90
      then char_of ((of_char c :: nat) + 32) else c)"

fun like_match :: "string \<Rightarrow> string \<Rightarrow> bool" where
  "like_match [] s = (s = [])"
| "like_match (c # p) [] = (c = CHR ''%'' \<and> like_match p [])"
| "like_match (c # p) (x # s) =
     (if c = CHR ''%'' then like_match p (x # s) \<or> like_match (c # p) s
      else if c = CHR ''_'' then like_match p s
      else if c = CHR 0x5C then
        (case p of [] \<Rightarrow> False | d # p' \<Rightarrow> to_lower d = to_lower x \<and> like_match p' s)
      else to_lower c = to_lower x \<and> like_match p s)"

definition ilike :: "string \<Rightarrow> string \<Rightarrow> bool" where
  "ilike text pattern = like_match pattern text"

text \<open>
  \<^verbatim>\<open>search_questions\<close>: the search term is a string, or \<open>None\<close> when the body has no
  \<^verbatim>\<open>searchTerm\<close>. The \<^verbatim>\<open>abort(404)\<close> inside the \<^verbatim>\<open>try\<close> is caught by the
  handler's own \<^verbatim>\<open>except\<close>, which aborts with 404 again.
\<close>

definition search_questions ::
  "(string \<Rightarrow> int option) \<Rightarrow> store \<Rightarrow> string option \<Rightarrow> string option \<Rightarrow> result"
where
  "search_questions conv s arg term =
     (let search_term = (case term of None \<Rightarrow> '''' | Some t \<Rightarrow> t)
      in if search_term = '''' then Inl (Abort 422)
         else
           (let search_term = ''%'' @ search_term @ ''%'';
                questions = filter (\<lambda>q. ilike (q_question q) search_term) (query_all s)
            in if length questions = 0 then Inl (Abort 404)
               else
                 (let paginated_questions =
                        get_paginated_questions conv arg questions QUESTIONS_PER_PAGE
                  in Inr (200, [(''success'', PBool True),
                                (''questions'', PList paginated_questions),
                                (''total_questions'', PInt (int (length (query_all s))))]))))"

text \<open>
  The spec's words for the match of a search term, "case-insensitive substring match":
  the term occurs in the text as a contiguous run of characters, letter case aside. It
  is what \<open>ilike\<close> with the pattern of \<open>search_questions\<close> is compared with.
\<close>

definition contains_ci :: "string \<Rightarrow> string \<Rightarrow> bool" where
  "contains_ci term text = sublist (map to_lower term) (map to_lower text)"

text \<open>
  \<^verbatim>\<open>get_questions_by_category\<close>: \<^verbatim>\<open>one_or_none\<close> is called outside any
  \<^verbatim>\<open>try\<close>, so what it raises leaves the handler. \<^verbatim>\<open>jsonify\<close> without a status
  answers 200.
\<close>

definition get_questions_by_category ::
  "(string \<Rightarrow> int option) \<Rightarrow> store \<Rightarrow> string option \<Rightarrow> int \<Rightarrow> result"
where
  "get_questions_by_category conv s arg i =
     (case one_or_none (filter (\<lambda>c. c_id c = i) (categories_all s)) of
        Inl e \<Rightarrow> Inl (Unhandled e)
      | Inr None \<Rightarrow> Inl (Abort 422)
      | Inr (Some category) \<Rightarrow>
          (let questions = query_filter_by_category s i;
               paginated_questions = get_paginated_questions conv arg questions QUESTIONS_PER_PAGE
           in Inr (200, [(''success'', PBool True),
                         (''questions'', PList paginated_questions),
                         (''total_questions'', PInt (int (length questions))),
                         (''current_category'', PStr (c_type category))])))"

section \<open>The quiz picker\<close>

text \<open>
  The body of a quiz request as the spec gives it: the list of the ids already asked and
  the category object, of which the handler reads the \<^verbatim>\<open>id\<close>; either may be
  missing. The handler is modelled on such bodies first and on the raw JSON body below.
\<close>

record quiz_category =
  qc_type :: string
  qc_id :: int

record quiz_request =
  previous_questions :: "int list option"
  quiz_category :: "quiz_category option"

text \<open>
  \<^verbatim>\<open>random.randint(a, b)\<close> raises \<^verbatim>\<open>ValueError\<close> for an empty range and
  otherwise delivers a number of \<open>a..b\<close>, here the one that the raw number \<open>r\<close> of the
  generator selects. The generator is a sequence \<open>rnd\<close> of raw numbers, the \<open>k\<close>-th
  call taking \<open>rnd k\<close>.
\<close>

definition randint :: "nat \<Rightarrow> int \<Rightarrow> int \<Rightarrow> py_exception + int" where
  "randint r a b = (if b < a then Inl ValueError else Inr (a + int r mod (b - a + 1)))"

definition get_random_question :: "(nat \<Rightarrow> nat) \<Rightarrow> nat \<Rightarrow> Question list \<Rightarrow> py_exception + Question" where
  "get_random_question rnd k questions =
     (case randint (rnd k) 0 (int (length questions) - 1) of
        Inl e \<Rightarrow> Inl e
      | Inr i \<Rightarrow> Inr (questions ! nat i))"

text \<open>
  The \<^verbatim>\<open>while found\<close> loop; \<open>k\<close> counts the draws made so far. The loop need not
  end, so its result is optional: \<open>None\<close> is a loop that runs forever.
\<close>

partial_function (option) quiz_loop ::
  "(nat \<Rightarrow> nat) \<Rightarrow> Question list \<Rightarrow> int list \<Rightarrow> nat \<Rightarrow> Question \<Rightarrow> (py_exception + Question) option"
where
  "quiz_loop rnd questions previous k next_question =
     (if q_id next_question \<in> set previous
      then (case get_random_question rnd k questions of
              Inl e \<Rightarrow> Some (Inl e)
            | Inr q \<Rightarrow> quiz_loop rnd questions previous (Suc k) q)
      else Some (Inr next_question))"

definition quiz_pool :: "store \<Rightarrow> int \<Rightarrow> Question list" where
  "quiz_pool s i = (if i = 0 then query_all s else query_filter_by_category s i)"

definition quiz_get_next_question :: "(nat \<Rightarrow> nat) \<Rightarrow> store \<Rightarrow> quiz_request \<Rightarrow> result option" where
  "quiz_get_next_question rnd s data =
     (case (quiz_category data, previous_questions data) of
        (Some category, Some previous) \<Rightarrow>
          (let questions = quiz_pool s (qc_id category)
           in case get_random_question rnd 0 questions of
                Inl e \<Rightarrow> Some (Inl (Unhandled e))
              | Inr next_question \<Rightarrow>
                  (case quiz_loop rnd questions previous 1 next_question of
                     None \<Rightarrow> None
                   | Some (Inl e) \<Rightarrow> Some (Inl (Unhandled e))
                   | Some (Inr q) \<Rightarrow>
                       Some (Inr (200, [(''success'', PBool True),
                                        (''question'', format_question q)]))))
      | _ \<Rightarrow> Some (Inl (Abort 400)))"

text \<open>
  The handler on the raw body. \<open>quiz_get_next_question\<close> above takes a body of the shape
  the spec gives it; a request may carry any JSON value in the two fields, and what the
  handler does with them is Python's: \<^verbatim>\<open>v == n\<close> for an integer \<open>n\<close> holds for that
  integer and for the truth value that counts as it, \<^verbatim>\<open>v['id']\<close> raises
  \<^verbatim>\<open>KeyError\<close> for a dictionary without the key and \<^verbatim>\<open>TypeError\<close> for a value
  that is no dictionary, and \<^verbatim>\<open>n in v\<close> searches a list, or the keys of a
  dictionary, for a value equal to \<open>n\<close> and raises \<^verbatim>\<open>TypeError\<close> for any other
  value of a JSON body.
\<close>

definition py_eq_int :: "pyval \<Rightarrow> int \<Rightarrow> bool" where
  "py_eq_int v n = (case v of
       PInt m \<Rightarrow> m = n
     | PBool b \<Rightarrow> (if b then 1 else 0) = n
     | _ \<Rightarrow> False)"

definition subscript :: "pyval \<Rightarrow> string \<Rightarrow> py_exception + pyval" where
  "subscript v k = (case v of
       PDict d \<Rightarrow> (case map_of d (PStr k) of None \<Rightarrow> Inl KeyError | Some x \<Rightarrow> Inr x)
     | _ \<Rightarrow> Inl TypeError)"

definition py_in :: "int \<Rightarrow> pyval \<Rightarrow> py_exception + bool" where
  "py_in n v = (case v of
       PList xs \<Rightarrow> Inr (list_ex (\<lambda>x. py_eq_int x n) xs)
     | PDict d \<Rightarrow> Inr (list_ex (\<lambda>x. py_eq_int x n) (map fst d))
     | _ \<Rightarrow> Inl TypeError)"

text \<open>
  The candidate pool of lines 231 to 234. \<^verbatim>\<open>filter_by(category=i)\<close> with an integer
  \<open>i\<close> keeps the questions of that category. What the storage engine makes of a
  comparison of the integer column with a value of another type, rows or an exception,
  is the engine's business: it is the parameter \<open>category_filter\<close>, given the value and
  the rows of the table.
\<close>

type_synonym category_filter = "pyval \<Rightarrow> Question list \<Rightarrow> py_exception + Question list"

definition quiz_questions :: "category_filter \<Rightarrow> store \<Rightarrow> pyval \<Rightarrow> py_exception + Question list" where
  "quiz_questions category_filter s category =
     (case subscript category ''id'' of
        Inl e \<Rightarrow> Inl e
      | Inr i \<Rightarrow>
          if py_eq_int i 0 then Inr (query_all s)
          else (case i of
                  PInt n \<Rightarrow> Inr (query_filter_by_category s n)
                | _ \<Rightarrow> category_filter i (questions_tbl s)))"

partial_function (option) quiz_loop_json ::
  "(nat \<Rightarrow> nat) \<Rightarrow> Question list \<Rightarrow> pyval \<Rightarrow> nat \<Rightarrow> Question \<Rightarrow> (py_exception + Question) option"
where
  "quiz_loop_json rnd questions previous k next_question =
     (case py_in (q_id next_question) previous of
        Inl e \<Rightarrow> Some (Inl e)
      | Inr found \<Rightarrow>
          if found
          then (case get_random_question rnd k questions of
                  Inl e \<Rightarrow> Some (Inl e)
                | Inr q \<Rightarrow> quiz_loop_json rnd questions previous (Suc k) q)
          else Some (Inr next_question))"

text \<open>
  \<^verbatim>\<open>data.get(key)\<close> gives \<^verbatim>\<open>None\<close> for a missing key, as it does for a key that
  holds the JSON value \<^verbatim>\<open>null\<close>. None of the exceptions is caught by the handler.
\<close>

definition quiz_get_next_question_json ::
  "category_filter \<Rightarrow> (nat \<Rightarrow> nat) \<Rightarrow> store \<Rightarrow> payload \<Rightarrow> result option"
where
  "quiz_get_next_question_json category_filter rnd s data =
     (let previous = dict_get data ''previous_questions'' PNone;
          category = dict_get data ''quiz_category'' PNone
      in if category = PNone \<or> previous = PNone then Some (Inl (Abort 400))
         else
           (case quiz_questions category_filter s category of
              Inl e \<Rightarrow> Some (Inl (Unhandled e))
            | Inr questions \<Rightarrow>
                (case get_random_question rnd 0 questions of
                   Inl e \<Rightarrow> Some (Inl (Unhandled e))
                 | Inr next_question \<Rightarrow>
                     (case quiz_loop_json rnd questions previous 1 next_question of
                        None \<Rightarrow> None
                      | Some (Inl e) \<Rightarrow> Some (Inl (Unhandled e))
                      | Some (Inr q) \<Rightarrow>
                          Some (Inr (200, [(''success'', PBool True),
                                           (''question'', format_question q)]))))))"

section \<open>Slices and pages\<close>

lemma slice_bound_nonneg: "0 \<le> i \<Longrightarrow> slice_bound n i = min (nat i) n"
  by (simp add: slice_bound_def)

lemma slice_bound_neg: "i < 0 \<Longrightarrow> slice_bound n i = n - nat (- i)"
  by (auto simp: slice_bound_def max_def)

lemma py_slice_to_zero: "py_slice xs start 0 = []"
  by (simp add: py_slice_def slice_bound_def)

text \<open>
  Claim C10. The pagination helper accepts page numbers below 1. For page 0 the slice runs
  from -10 to 0 and is empty for every list. For page -1 the slice runs from -20 to -10,
  and over a list of more than 20 questions it is the ten formatted questions that end
  ten places before the end of the list: data from the end of the list, not a failure.
\<close>

theorem pagination_below_one:
  "(args_get_page conv arg = 0 \<longrightarrow> get_paginated_questions conv arg qs QUESTIONS_PER_PAGE = []) \<and>
   (args_get_page conv arg = - 1 \<and> 20 < length qs \<longrightarrow>
      get_paginated_questions conv arg qs QUESTIONS_PER_PAGE
        = take 10 (drop (length qs - 20) (map format_question qs)) \<and>
      length (get_paginated_questions conv arg qs QUESTIONS_PER_PAGE) = 10)"
proof -
  have zero: "get_paginated_questions conv arg qs QUESTIONS_PER_PAGE = []"
    if "args_get_page conv arg = 0"
    using that by (simp add: get_paginated_questions_def QUESTIONS_PER_PAGE_def py_slice_to_zero)
  have minus: "get_paginated_questions conv arg qs QUESTIONS_PER_PAGE
        = take 10 (drop (length qs - 20) (map format_question qs))"
    if h: "args_get_page conv arg = - 1 \<and> 20 < length qs"
  proof -
    let ?xs = "map format_question qs"
    have s: "slice_bound (length ?xs) (- 20) = length qs - 20"
      by (simp add: slice_bound_neg)
    have e: "slice_bound (length ?xs) (- 10) = length qs - 10"
      by (simp add: slice_bound_neg)
    from h have d: "(length qs - 10) - (length qs - 20) = 10" by arith
    from h have "get_paginated_questions conv arg qs QUESTIONS_PER_PAGE = py_slice ?xs (- 20) (- 10)"
      by (simp add: get_paginated_questions_def QUESTIONS_PER_PAGE_def)
    also have "\<dots> = take 10 (drop (length qs - 20) ?xs)"
      unfolding py_slice_def Let_def s e d ..
    finally show ?thesis .
  qed
  show ?thesis using zero minus by auto
qed

theorem pagination_below_one_witness:
  "args_get_page py_int (Some ''0'') = 0 \<and>
   get_paginated_questions py_int (Some ''0'') (replicate 21 \<lparr>q_id = 1, q_question = ''q'', q_answer = ''a'', q_difficulty = 1, q_category = 1\<rparr>) QUESTIONS_PER_PAGE = [] \<and>
   args_get_page py_int (Some ''-1'') = - 1 \<and>
   20 < length (replicate 21 \<lparr>q_id = 1, q_question = ''q'', q_answer = ''a'', q_difficulty = 1, q_category = 1\<rparr>) \<and>
   length (get_paginated_questions py_int (Some ''-1'') (replicate 21 \<lparr>q_id = 1, q_question = ''q'', q_answer = ''a'', q_difficulty = 1, q_category = 1\<rparr>) QUESTIONS_PER_PAGE) = 10"
proof -
  let ?qs = "replicate 21 \<lparr>q_id = 1, q_question = ''q'', q_answer = ''a'', q_difficulty = 1, q_category = 1\<rparr>"
  have p0: "args_get_page py_int (Some ''0'') = 0" by code_simp
  have p1: "args_get_page py_int (Some ''-1'') = - 1" by code_simp
  have len: "20 < length ?qs" by simp
  from pagination_below_one [of py_int "Some ''0''" ?qs] p0
  have a: "get_paginated_questions py_int (Some ''0'') ?qs QUESTIONS_PER_PAGE = []" by blast
  from pagination_below_one [of py_int "Some ''-1''" ?qs] p1 len
  have b: "length (get_paginated_questions py_int (Some ''-1'') ?qs QUESTIONS_PER_PAGE) = 10" by blast
  from p0 p1 len a b show ?thesis by blast
qed

lemma take_min_length: "take (min k (length ys)) ys = take k ys"
  by (cases "k \<le> length ys") (simp_all add: min_def)

lemma py_slice_page:
  assumes "0 \<le> a" "0 \<le> k"
  shows "py_slice xs a (a + k) = take (nat k) (drop (nat a) xs)"
proof (cases "nat a < length xs")
  case True
  with assms have s: "slice_bound (length xs) a = nat a"
    by (simp add: slice_bound_def)
  from assms have e: "slice_bound (length xs) (a + k) = min (nat a + nat k) (length xs)"
    by (simp add: slice_bound_def nat_add_distrib)
  have "min (nat a + nat k) (length xs) - nat a = min (nat k) (length (drop (nat a) xs))"
    using True by (auto simp: min_def)
  then show ?thesis
    by (simp only: py_slice_def Let_def s e take_min_length)
next
  case False
  with assms have s: "slice_bound (length xs) a = length xs"
    by (simp add: slice_bound_def)
  from assms False have e: "slice_bound (length xs) (a + k) = length xs"
    by (simp add: slice_bound_def)
  from False show ?thesis
    by (simp add: py_slice_def s e)
qed

lemma paginated_from_page_one:
  assumes "1 \<le> args_get_page conv arg"
  shows "get_paginated_questions conv arg qs QUESTIONS_PER_PAGE
         = take 10 (drop (nat ((args_get_page conv arg - 1) * 10)) (map format_question qs))"
  using assms py_slice_page [of "(args_get_page conv arg - 1) * 10" 10 "map format_question qs"]
  by (simp add: get_paginated_questions_def QUESTIONS_PER_PAGE_def)

lemma length_query_order_by_id: "length (query_order_by_id s) = length (questions_tbl s)"
  by (simp add: query_order_by_id_def)

lemma get_questions_cases:
  "get_questions conv s arg =
     (if get_paginated_questions conv arg (query_order_by_id s) QUESTIONS_PER_PAGE = []
      then Inl (Abort 404)
      else Inr (200, [(''success'', PBool True),
                      (''total_questions'', PInt (int (length (questions_tbl s)))),
                      (''categories'', PDict (categories_dict (categories_order_by_id s))),
                      (''questions'', PList (get_paginated_questions conv arg (query_order_by_id s)
                                               QUESTIONS_PER_PAGE))]))"
  by (simp add: get_questions_def Let_def length_query_order_by_id)

section \<open>Listing questions\<close>

text \<open>
  Claim C4. For a page number \<open>p\<close> from 1 on whose slice starts inside the list,
  \<^verbatim>\<open>GET /questions\<close> answers 200 with exactly the sub-sequence from \<open>(p - 1) * 10\<close> to
  \<open>(p - 1) * 10 + 10\<close> of the formatted questions in ascending order of id, which are
  \<open>min 10 remaining\<close> questions, and with \<^verbatim>\<open>total_questions\<close> the number of all
  questions of the store. Whenever the slice of the page is empty, the request is
  aborted with 404.
\<close>

theorem get_questions_page:
  "(1 \<le> args_get_page conv arg \<and>
    (args_get_page conv arg - 1) * 10 < int (length (questions_tbl s)) \<longrightarrow>
      get_questions conv s arg =
        Inr (200, [(''success'', PBool True),
                   (''total_questions'', PInt (int (length (questions_tbl s)))),
                   (''categories'', PDict (categories_dict (categories_order_by_id s))),
                   (''questions'',
                    PList (take 10 (drop (nat ((args_get_page conv arg - 1) * 10))
                                      (map format_question (sort_key q_id (questions_tbl s))))))]) \<and>
      length (take 10 (drop (nat ((args_get_page conv arg - 1) * 10))
                          (map format_question (sort_key q_id (questions_tbl s)))))
        = min 10 (length (questions_tbl s) - nat ((args_get_page conv arg - 1) * 10))) \<and>
   (get_paginated_questions conv arg (query_order_by_id s) QUESTIONS_PER_PAGE = [] \<longrightarrow>
      get_questions conv s arg = Inl (Abort 404))"
proof -
  let ?p = "args_get_page conv arg"
  let ?page = "take 10 (drop (nat ((?p - 1) * 10)) (map format_question (sort_key q_id (questions_tbl s))))"
  have empty: "get_questions conv s arg = Inl (Abort 404)"
    if "get_paginated_questions conv arg (query_order_by_id s) QUESTIONS_PER_PAGE = []"
    using that by (simp add: get_questions_cases)
  have len: "length ?page = min 10 (length (questions_tbl s) - nat ((?p - 1) * 10))"
    by simp
  have inrange: "get_questions conv s arg =
        Inr (200, [(''success'', PBool True),
                   (''total_questions'', PInt (int (length (questions_tbl s)))),
                   (''categories'', PDict (categories_dict (categories_order_by_id s))),
                   (''questions'', PList ?page)])"
    if h: "1 \<le> ?p \<and> (?p - 1) * 10 < int (length (questions_tbl s))"
  proof -
    from h have eq: "get_paginated_questions conv arg (query_order_by_id s) QUESTIONS_PER_PAGE = ?page"
      by (simp add: paginated_from_page_one query_order_by_id_def)
    from h have "nat ((?p - 1) * 10) < length (questions_tbl s)"
      by (simp add: nat_less_iff)
    then have "length ?page \<noteq> 0" unfolding len by simp
    then have "?page \<noteq> []" by (simp only: length_0_conv not_False_eq_True)
    with eq show ?thesis by (simp add: get_questions_cases)
  qed
  from empty len inrange show ?thesis by blast
qed

theorem get_questions_page_witness:
  "1 \<le> args_get_page py_int (Some ''2'') \<and>
   (args_get_page py_int (Some ''2'') - 1) * 10
     < int (length (questions_tbl \<lparr>questions_tbl = replicate 12 \<lparr>q_id = 1, q_question = ''q'', q_answer = ''a'', q_difficulty = 1, q_category = 1\<rparr>, categories_tbl = []\<rparr>)) \<and>
   status_code (get_questions py_int \<lparr>questions_tbl = replicate 12 \<lparr>q_id = 1, q_question = ''q'', q_answer = ''a'', q_difficulty = 1, q_category = 1\<rparr>, categories_tbl = []\<rparr> (Some ''2'')) = 200 \<and>
   get_paginated_questions py_int (Some ''3'') (query_order_by_id \<lparr>questions_tbl = replicate 12 \<lparr>q_id = 1, q_question = ''q'', q_answer = ''a'', q_difficulty = 1, q_category = 1\<rparr>, categories_tbl = []\<rparr>) QUESTIONS_PER_PAGE = [] \<and>
   get_questions py_int \<lparr>questions_tbl = replicate 12 \<lparr>q_id = 1, q_question = ''q'', q_answer = ''a'', q_difficulty = 1, q_category = 1\<rparr>, categories_tbl = []\<rparr> (Some ''3'') = Inl (Abort 404)"
proof -
  let ?s = "\<lparr>questions_tbl = replicate 12 \<lparr>q_id = 1, q_question = ''q'', q_answer = ''a'', q_difficulty = 1, q_category = 1\<rparr>, categories_tbl = []\<rparr>"
  have p2: "args_get_page py_int (Some ''2'') = 2" by code_simp
  have p3: "args_get_page py_int (Some ''3'') = 3" by code_simp
  have h1: "1 \<le> args_get_page py_int (Some ''2'')" by (simp add: p2)
  have h2: "(args_get_page py_int (Some ''2'') - 1) * 10 < int (length (questions_tbl ?s))"
    by (simp add: p2)
  have h3: "get_paginated_questions py_int (Some ''3'') (query_order_by_id ?s) QUESTIONS_PER_PAGE = []"
    by (simp add: paginated_from_page_one p3 query_order_by_id_def)
  from get_questions_page [of py_int "Some ''2''" ?s] h1 h2
  have "status_code (get_questions py_int ?s (Some ''2'')) = 200"
    by (simp add: status_code_def)
  moreover from get_questions_page [of py_int "Some ''3''" ?s] h3
  have "get_questions py_int ?s (Some ''3'') = Inl (Abort 404)" by blast
  ultimately show ?thesis using h1 h2 h3 by blast
qed

section \<open>A page parameter that is not an integer\<close>

lemma sort_key_Nil_iff: "sort_key f xs = [] \<longleftrightarrow> xs = []"
  by (metis length_0_conv length_sort)

text \<open>
  Claim C3, as stated, says that a \<^verbatim>\<open>page\<close> parameter that is present but not an
  integer fails the request with 404. It does not: for \<^verbatim>\<open>page=abc\<close> and a store with
  one question the answer is 200 with that question.
\<close>

theorem non_integer_page_counterexample:
  "py_int ''abc'' = None \<and>
   get_questions py_int \<lparr>questions_tbl = [\<lparr>q_id = 1, q_question = ''q'', q_answer = ''a'', q_difficulty = 1, q_category = 1\<rparr>], categories_tbl = []\<rparr> (Some ''abc'')
     = Inr (200, [(''success'', PBool True), (''total_questions'', PInt 1),
                  (''categories'', PDict []),
                  (''questions'', PList [format_question \<lparr>q_id = 1, q_question = ''q'', q_answer = ''a'', q_difficulty = 1, q_category = 1\<rparr>])])"
proof -
  have p: "py_int ''abc'' = None" by code_simp
  then have "args_get_page py_int (Some ''abc'') = 1" by (simp add: args_get_page_def)
  then show ?thesis using p
    by (simp add: get_questions_cases paginated_from_page_one query_order_by_id_def
        categories_order_by_id_def categories_dict_def)
qed

text \<open>
  Claim C3, amended. A \<^verbatim>\<open>page\<close> parameter that is present but not an integer,
  that is, one on which the conversion \<^verbatim>\<open>int\<close> raises \<^verbatim>\<open>ValueError\<close>, is
  replaced by the default page 1: the request is answered as the request without the
  parameter is, and it fails with 404 exactly when the store has no question. This holds
  whatever the conversion makes of other strings.
\<close>

theorem non_integer_page_is_page_one:
  "conv v = None \<Longrightarrow>
     get_questions conv s (Some v) = get_questions conv s None \<and>
     (get_questions conv s (Some v) = Inl (Abort 404) \<longleftrightarrow> questions_tbl s = [])"
proof -
  assume "conv v = None"
  then have p: "args_get_page conv (Some v) = 1" by (simp add: args_get_page_def)
  have d: "args_get_page conv None = 1" by (simp add: args_get_page_def)
  have same: "get_paginated_questions conv (Some v) qs n = get_paginated_questions conv None qs n" for qs n
    by (simp add: get_paginated_questions_def p d)
  have "get_paginated_questions conv (Some v) (query_order_by_id s) QUESTIONS_PER_PAGE
        = take 10 (map format_question (query_order_by_id s))"
    using paginated_from_page_one [of conv "Some v"] by (simp add: p)
  then have "get_paginated_questions conv (Some v) (query_order_by_id s) QUESTIONS_PER_PAGE = []
        \<longleftrightarrow> questions_tbl s = []"
    by (simp add: query_order_by_id_def sort_key_Nil_iff)
  then show ?thesis by (simp add: get_questions_cases same)
qed

theorem non_integer_page_is_page_one_witness:
  "py_int ''abc'' = None \<and>
   get_questions py_int \<lparr>questions_tbl = [], categories_tbl = []\<rparr> (Some ''abc'') = Inl (Abort 404)"
proof -
  have p: "py_int ''abc'' = None" by code_simp
  have e: "questions_tbl \<lparr>questions_tbl = [], categories_tbl = []\<rparr> = []" by simp
  note t = non_integer_page_is_page_one [where conv = py_int and v = "''abc''"
      and s = "\<lparr>questions_tbl = [], categories_tbl = []\<rparr>", OF p, THEN conjunct2, THEN iffD2, OF e]
  show ?thesis by (rule conjI [OF p t])
qed

section \<open>Deleting a question\<close>

lemma query_get_None_iff: "query_get s i = None \<longleftrightarrow> \<not> (\<exists>q \<in> set (questions_tbl s). q_id q = i)"
  by (auto simp: query_get_def find_None_iff)

lemma query_get_Some_id: "query_get s i = Some q \<Longrightarrow> q_id q = i"
  by (auto simp: query_get_def find_Some_iff)

lemma query_get_after_delete: "query_get (s\<lparr>questions_tbl := filter (\<lambda>q. q_id q \<noteq> i) (questions_tbl s)\<rparr>) i = None"
  by (simp add: query_get_None_iff)

text \<open>
  Claim C5. For every integer id, \<^verbatim>\<open>DELETE /questions/{id}\<close> answers 200 with the
  message "Question successfully deleted" and removes the question for good exactly when
  a stored question has that id; otherwise it is aborted with 422 and the store is left
  as it was. Hence deleting the same id twice answers 200 and then 422.
\<close>

theorem delete_question_outcome:
  "(if \<exists>q \<in> set (questions_tbl s). q_id q = i
    then fst (delete_question s i)
           = Inr (200, [(''success'', PBool True),
                        (''message'', PStr ''Question successfully deleted'')]) \<and>
         snd (delete_question s i)
           = s\<lparr>questions_tbl := filter (\<lambda>q. q_id q \<noteq> i) (questions_tbl s)\<rparr> \<and>
         delete_question (snd (delete_question s i)) i
           = (Inl (Abort 422), snd (delete_question s i))
    else delete_question s i = (Inl (Abort 422), s))"
proof (cases "query_get s i")
  case None
  then have "\<not> (\<exists>q \<in> set (questions_tbl s). q_id q = i)"
    by (simp add: query_get_None_iff)
  then show ?thesis
    by (simp add: delete_question_def None)
next
  case (Some q)
  then have i: "q_id q = i" by (rule query_get_Some_id)
  from Some have ex: "\<exists>q \<in> set (questions_tbl s). q_id q = i"
    using query_get_None_iff [of s i] by simp
  have first: "delete_question s i
      = (Inr (200, [(''success'', PBool True),
                    (''message'', PStr ''Question successfully deleted'')]),
         s\<lparr>questions_tbl := filter (\<lambda>q. q_id q \<noteq> i) (questions_tbl s)\<rparr>)"
    by (simp add: delete_question_def Some delete_row_def i)
  have second: "delete_question (s\<lparr>questions_tbl := filter (\<lambda>q. q_id q \<noteq> i) (questions_tbl s)\<rparr>) i
      = (Inl (Abort 422), s\<lparr>questions_tbl := filter (\<lambda>q. q_id q \<noteq> i) (questions_tbl s)\<rparr>)"
    by (simp add: delete_question_def query_get_after_delete)
  from ex first second show ?thesis by simp
qed

theorem delete_question_outcome_witness:
  "(\<exists>q \<in> set (questions_tbl \<lparr>questions_tbl = [\<lparr>q_id = 7, q_question = ''q'', q_answer = ''a'', q_difficulty = 1, q_category = 1\<rparr>], categories_tbl = []\<rparr>). q_id q = 7) \<and>
   status_code (fst (delete_question \<lparr>questions_tbl = [\<lparr>q_id = 7, q_question = ''q'', q_answer = ''a'', q_difficulty = 1, q_category = 1\<rparr>], categories_tbl = []\<rparr> 7)) = 200 \<and>
   snd (delete_question \<lparr>questions_tbl = [\<lparr>q_id = 7, q_question = ''q'', q_answer = ''a'', q_difficulty = 1, q_category = 1\<rparr>], categories_tbl = []\<rparr> 7)
     = \<lparr>questions_tbl = [], categories_tbl = []\<rparr> \<and>
   \<not> (\<exists>q \<in> set (questions_tbl \<lparr>questions_tbl = [], categories_tbl = []\<rparr>). q_id q = 7) \<and>
   delete_question \<lparr>questions_tbl = [], categories_tbl = []\<rparr> 7
     = (Inl (Abort 422), \<lparr>questions_tbl = [], categories_tbl = []\<rparr>)"
  using delete_question_outcome [of "\<lparr>questions_tbl = [\<lparr>q_id = 7, q_question = ''q'', q_answer = ''a'', q_difficulty = 1, q_category = 1\<rparr>], categories_tbl = []\<rparr>" 7]
    delete_question_outcome [of "\<lparr>questions_tbl = [], categories_tbl = []\<rparr>" 7]
  by (simp add: status_code_def)

section \<open>Creating a question\<close>

lemma fold_max_upper: "x \<in> set xs \<Longrightarrow> x \<le> fold max xs (a::int)"
proof (induction xs arbitrary: a)
  case Nil
  then show ?case by simp
next
  case (Cons y ys)
  have mono: "b \<le> fold max ys b" for b :: int
    by (induction ys arbitrary: b) (auto intro: order_trans [OF max.cobounded2])
  show ?case
  proof (cases "x = y")
    case True
    have "y \<le> max y a" by simp
    also have "\<dots> \<le> fold max ys (max y a)" by (rule mono)
    finally show ?thesis using True by simp
  next
    case False
    with Cons.prems have "x \<in> set ys" by simp
    then show ?thesis using Cons.IH by simp
  qed
qed

lemma fresh_id_is_fresh: "fresh_id qs \<notin> q_id ` set qs"
proof
  assume "fresh_id qs \<in> q_id ` set qs"
  then have "fresh_id qs \<in> set (map q_id qs)" by simp
  then have "fresh_id qs \<le> fold max (map q_id qs) 0" by (rule fold_max_upper)
  then show False by (simp add: fresh_id_def)
qed

lemma dict_get_empty_iff:
  "dict_get d k (PStr '''') = PStr '''' \<longleftrightarrow> map_of d k = None \<or> map_of d k = Some (PStr '''')"
  by (simp add: dict_get_def split: option.splits)

lemma dict_get_present: "map_of d k = Some v \<Longrightarrow> dict_get d k dflt = v"
  by (simp add: dict_get_def)

text \<open>
  Claim C6, as stated, says that a body whose four fields are all present and not empty
  is answered with 201. It is not when persisting faults: here the store takes the
  difficulty 1 but refuses the difficulty 2147483648, which is beyond an integer column;
  the insertion raises, the handler's \<^verbatim>\<open>except\<close> aborts with 422, and nothing is
  stored.
\<close>

theorem create_question_counterexample:
  "map_of [(''question'', PStr ''q''), (''answer'', PStr ''a''),
           (''difficulty'', PInt 2147483648), (''category'', PInt 1)] ''question''
     = Some (PStr ''q'') \<and>
   map_of [(''question'', PStr ''q''), (''answer'', PStr ''a''),
           (''difficulty'', PInt 2147483648), (''category'', PInt 1)] ''answer''
     = Some (PStr ''a'') \<and>
   map_of [(''question'', PStr ''q''), (''answer'', PStr ''a''),
           (''difficulty'', PInt 2147483648), (''category'', PInt 1)] ''difficulty''
     = Some (PInt 2147483648) \<and>
   map_of [(''question'', PStr ''q''), (''answer'', PStr ''a''),
           (''difficulty'', PInt 2147483648), (''category'', PInt 1)] ''category''
     = Some (PInt 1) \<and>
   create_question [(PStr ''q'', PStr ''a'', PInt 1, PInt 1) \<mapsto> (''q'', ''a'', 1, 1)]
     \<lparr>questions_tbl = [], categories_tbl = []\<rparr>
     [(''question'', PStr ''q''), (''answer'', PStr ''a''),
      (''difficulty'', PInt 2147483648), (''category'', PInt 1)]
     = (Inl (Abort 422), \<lparr>questions_tbl = [], categories_tbl = []\<rparr>)"
  by (simp add: create_question_def dict_get_def insert_row_def)

text \<open>
  Claim C6, amended. For every body of \<^verbatim>\<open>POST /questions\<close>: if one of question, answer,
  difficulty and category is missing or the empty string, the request is aborted with 422
  and the store is unchanged. Otherwise the handler persists a question with these
  fields: when the store takes them, the question is appended under an id that no stored
  question has and the answer is 201 with the message "Question successfully created!";
  when persisting faults, the request is aborted with 422 and the store is unchanged.
\<close>

theorem create_question_outcome:
  "((\<exists>k \<in> {''question'', ''answer'', ''difficulty'', ''category''}.
        map_of data k = None \<or> map_of data k = Some (PStr ''''))
      \<longrightarrow> create_question engine s data = (Inl (Abort 422), s)) \<and>
   (map_of data ''question'' = Some question \<and> question \<noteq> PStr '''' \<and>
    map_of data ''answer'' = Some answer \<and> answer \<noteq> PStr '''' \<and>
    map_of data ''difficulty'' = Some difficulty \<and> difficulty \<noteq> PStr '''' \<and>
    map_of data ''category'' = Some category \<and> category \<noteq> PStr '''' \<and>
    engine (question, answer, difficulty, category) = Some (qt, an, di, ca)
      \<longrightarrow> create_question engine s data
            = (Inr (201, [(''success'', PBool True),
                          (''message'', PStr ''Question successfully created!'')]),
               s\<lparr>questions_tbl := questions_tbl s @
                    [\<lparr>q_id = fresh_id (questions_tbl s), q_question = qt, q_answer = an,
                      q_difficulty = di, q_category = ca\<rparr>]\<rparr>) \<and>
          fresh_id (questions_tbl s) \<notin> q_id ` set (questions_tbl s)) \<and>
   (map_of data ''question'' = Some question \<and> question \<noteq> PStr '''' \<and>
    map_of data ''answer'' = Some answer \<and> answer \<noteq> PStr '''' \<and>
    map_of data ''difficulty'' = Some difficulty \<and> difficulty \<noteq> PStr '''' \<and>
    map_of data ''category'' = Some category \<and> category \<noteq> PStr '''' \<and>
    engine (question, answer, difficulty, category) = None
      \<longrightarrow> create_question engine s data = (Inl (Abort 422), s))"
proof -
  have invalid: "create_question engine s data = (Inl (Abort 422), s)"
    if "\<exists>k \<in> {''question'', ''answer'', ''difficulty'', ''category''}.
          map_of data k = None \<or> map_of data k = Some (PStr '''')"
  proof -
    from that have "dict_get data ''question'' (PStr '''') = PStr '''' \<or>
        dict_get data ''answer'' (PStr '''') = PStr '''' \<or>
        dict_get data ''difficulty'' (PStr '''') = PStr '''' \<or>
        dict_get data ''category'' (PStr '''') = PStr ''''"
      unfolding dict_get_empty_iff by blast
    then show ?thesis by (simp add: create_question_def Let_def)
  qed
  have stored: "create_question engine s data
            = (Inr (201, [(''success'', PBool True),
                          (''message'', PStr ''Question successfully created!'')]),
               s\<lparr>questions_tbl := questions_tbl s @
                    [\<lparr>q_id = fresh_id (questions_tbl s), q_question = qt, q_answer = an,
                      q_difficulty = di, q_category = ca\<rparr>]\<rparr>)"
    if "map_of data ''question'' = Some question \<and> question \<noteq> PStr '''' \<and>
        map_of data ''answer'' = Some answer \<and> answer \<noteq> PStr '''' \<and>
        map_of data ''difficulty'' = Some difficulty \<and> difficulty \<noteq> PStr '''' \<and>
        map_of data ''category'' = Some category \<and> category \<noteq> PStr '''' \<and>
        engine (question, answer, difficulty, category) = Some (qt, an, di, ca)"
    using that by (simp add: create_question_def dict_get_present insert_row_def)
  have fault: "create_question engine s data = (Inl (Abort 422), s)"
    if "map_of data ''question'' = Some question \<and> question \<noteq> PStr '''' \<and>
        map_of data ''answer'' = Some answer \<and> answer \<noteq> PStr '''' \<and>
        map_of data ''difficulty'' = Some difficulty \<and> difficulty \<noteq> PStr '''' \<and>
        map_of data ''category'' = Some category \<and> category \<noteq> PStr '''' \<and>
        engine (question, answer, difficulty, category) = None"
    using that by (simp add: create_question_def dict_get_present insert_row_def)
  from invalid stored fault fresh_id_is_fresh show ?thesis by blast
qed

theorem create_question_outcome_witness:
  "(\<exists>k \<in> {''question'', ''answer'', ''difficulty'', ''category''}.
      map_of [(''question'', PStr ''''), (''answer'', PStr ''a''),
              (''difficulty'', PInt 1), (''category'', PInt 1)] k = None \<or>
      map_of [(''question'', PStr ''''), (''answer'', PStr ''a''),
              (''difficulty'', PInt 1), (''category'', PInt 1)] k = Some (PStr '''')) \<and>
   create_question [(PStr ''q'', PStr ''a'', PInt 1, PInt 1) \<mapsto> (''q'', ''a'', 1, 1)]
     \<lparr>questions_tbl = [], categories_tbl = []\<rparr>
     [(''question'', PStr ''''), (''answer'', PStr ''a''),
      (''difficulty'', PInt 1), (''category'', PInt 1)]
     = (Inl (Abort 422), \<lparr>questions_tbl = [], categories_tbl = []\<rparr>) \<and>
   [(PStr ''q'', PStr ''a'', PInt 1, PInt 1) \<mapsto> (''q'', ''a'', 1, 1)]
     (PStr ''q'', PStr ''a'', PInt 1, PInt 1) = Some (''q'', ''a'', 1, 1) \<and>
   create_question [(PStr ''q'', PStr ''a'', PInt 1, PInt 1) \<mapsto> (''q'', ''a'', 1, 1)]
     \<lparr>questions_tbl = [], categories_tbl = []\<rparr>
     [(''question'', PStr ''q''), (''answer'', PStr ''a''),
      (''difficulty'', PInt 1), (''category'', PInt 1)]
     = (Inr (201, [(''success'', PBool True),
                   (''message'', PStr ''Question successfully created!'')]),
        \<lparr>questions_tbl = [\<lparr>q_id = 1, q_question = ''q'', q_answer = ''a'',
                             q_difficulty = 1, q_category = 1\<rparr>],
          categories_tbl = []\<rparr>) \<and>
   [(PStr ''q'', PStr ''a'', PInt 1, PInt 1) \<mapsto> (''q'', ''a'', 1, 1)]
     (PStr ''q'', PStr ''a'', PInt 2147483648, PInt 1) = None \<and>
   create_question [(PStr ''q'', PStr ''a'', PInt 1, PInt 1) \<mapsto> (''q'', ''a'', 1, 1)]
     \<lparr>questions_tbl = [\<lparr>q_id = 1, q_question = ''q'', q_answer = ''a'',
                          q_difficulty = 1, q_category = 1\<rparr>],
       categories_tbl = []\<rparr>
     [(''question'', PStr ''q''), (''answer'', PStr ''a''),
      (''difficulty'', PInt 2147483648), (''category'', PInt 1)]
     = (Inl (Abort 422),
        \<lparr>questions_tbl = [\<lparr>q_id = 1, q_question = ''q'', q_answer = ''a'',
                             q_difficulty = 1, q_category = 1\<rparr>],
          categories_tbl = []\<rparr>)"
proof -
  let ?e = "[(PStr ''q'', PStr ''a'', PInt 1, PInt 1) \<mapsto> (''q'', ''a'', 1, 1)]"
  let ?s = "\<lparr>questions_tbl = [], categories_tbl = []\<rparr>"
  let ?s1 = "\<lparr>questions_tbl = [\<lparr>q_id = 1, q_question = ''q'', q_answer = ''a'',
                          q_difficulty = 1, q_category = 1\<rparr>], categories_tbl = []\<rparr>"
  let ?bad = "[(''question'', PStr ''''), (''answer'', PStr ''a''),
               (''difficulty'', PInt 1), (''category'', PInt 1)]"
  let ?good = "[(''question'', PStr ''q''), (''answer'', PStr ''a''),
                (''difficulty'', PInt 1), (''category'', PInt 1)]"
  let ?big = "[(''question'', PStr ''q''), (''answer'', PStr ''a''),
               (''difficulty'', PInt 2147483648), (''category'', PInt 1)]"
  have h1: "\<exists>k \<in> {''question'', ''answer'', ''difficulty'', ''category''}.
      map_of ?bad k = None \<or> map_of ?bad k = Some (PStr '''')"
    by simp
  have e1: "?e (PStr ''q'', PStr ''a'', PInt 1, PInt 1) = Some (''q'', ''a'', 1, 1)" by simp
  have e2: "?e (PStr ''q'', PStr ''a'', PInt 2147483648, PInt 1) = None" by simp
  have h2: "map_of ?good ''question'' = Some (PStr ''q'') \<and> PStr ''q'' \<noteq> PStr '''' \<and>
    map_of ?good ''answer'' = Some (PStr ''a'') \<and> PStr ''a'' \<noteq> PStr '''' \<and>
    map_of ?good ''difficulty'' = Some (PInt 1) \<and> PInt 1 \<noteq> PStr '''' \<and>
    map_of ?good ''category'' = Some (PInt 1) \<and> PInt 1 \<noteq> PStr '''' \<and>
    ?e (PStr ''q'', PStr ''a'', PInt 1, PInt 1) = Some (''q'', ''a'', 1, 1)"
    by simp
  have h3: "map_of ?big ''question'' = Some (PStr ''q'') \<and> PStr ''q'' \<noteq> PStr '''' \<and>
    map_of ?big ''answer'' = Some (PStr ''a'') \<and> PStr ''a'' \<noteq> PStr '''' \<and>
    map_of ?big ''difficulty'' = Some (PInt 2147483648) \<and> PInt 2147483648 \<noteq> PStr '''' \<and>
    map_of ?big ''category'' = Some (PInt 1) \<and> PInt 1 \<noteq> PStr '''' \<and>
    ?e (PStr ''q'', PStr ''a'', PInt 2147483648, PInt 1) = None"
    by simp
  have f: "fresh_id [] = 1" by (simp add: fresh_id_def)
  have a: "create_question ?e ?s ?bad = (Inl (Abort 422), ?s)"
    by (rule create_question_outcome [where data = ?bad and s = ?s and engine = ?e,
          THEN conjunct1, THEN mp, OF h1])
  have "create_question ?e ?s ?good
      = (Inr (201, [(''success'', PBool True),
                    (''message'', PStr ''Question successfully created!'')]),
         ?s\<lparr>questions_tbl := questions_tbl ?s @
              [\<lparr>q_id = fresh_id (questions_tbl ?s), q_question = ''q'', q_answer = ''a'',
                q_difficulty = 1, q_category = 1\<rparr>]\<rparr>)"
    by (rule create_question_outcome [where data = ?good and s = ?s and engine = ?e
          and question = "PStr ''q''" and answer = "PStr ''a''" and difficulty = "PInt 1"
          and category = "PInt 1" and qt = "''q''" and an = "''a''" and di = 1 and ca = 1,
          THEN conjunct2, THEN conjunct1, THEN mp, OF h2, THEN conjunct1])
  then have b: "create_question ?e ?s ?good
      = (Inr (201, [(''success'', PBool True),
                    (''message'', PStr ''Question successfully created!'')]), ?s1)"
    by (simp add: f)
  have c: "create_question ?e ?s1 ?big = (Inl (Abort 422), ?s1)"
    by (rule create_question_outcome [where data = ?big and s = ?s1 and engine = ?e
          and question = "PStr ''q''" and answer = "PStr ''a''"
          and difficulty = "PInt 2147483648" and category = "PInt 1",
          THEN conjunct2, THEN conjunct2, THEN mp, OF h3])
  show ?thesis by (rule conjI [OF h1 conjI [OF a conjI [OF e1 conjI [OF b conjI [OF e2 c]]]]])
qed

section \<open>Questions of one category\<close>

lemma set_py_slice_subset: "set (py_slice xs a b) \<subseteq> set xs"
proof -
  have "set (py_slice xs a b) \<subseteq> set (drop (slice_bound (length xs) a) xs)"
    unfolding py_slice_def Let_def by (rule set_take_subset)
  also have "\<dots> \<subseteq> set xs" by (rule set_drop_subset)
  finally show ?thesis .
qed

lemma paginated_subset:
  "set (get_paginated_questions conv arg qs n) \<subseteq> format_question ` set qs"
  using set_py_slice_subset [of "map format_question qs"]
  by (simp add: get_paginated_questions_def Let_def)

lemma field_category: "field (format_question q) ''category'' = Some (PInt (q_category q))"
  by (simp add: field_def format_question_def)

lemma filter_unique_id:
  "distinct (map c_id cs) \<Longrightarrow> c \<in> set cs \<Longrightarrow> filter (\<lambda>x. c_id x = c_id c) cs = [c]"
proof (induction cs)
  case Nil
  then show ?case by simp
next
  case (Cons d ds)
  show ?case
  proof (cases "d = c")
    case True
    from Cons.prems have "\<forall>x \<in> set ds. c_id x \<noteq> c_id d"
      by (auto simp: image_iff)
    then have "filter (\<lambda>x. c_id x = c_id d) ds = []" by (simp add: filter_empty_conv)
    with True show ?thesis by simp
  next
    case False
    with Cons.prems have in_ds: "c \<in> set ds" by simp
    with Cons.prems have "c_id d \<noteq> c_id c" by (auto simp: image_iff)
    moreover from Cons.prems in_ds have "filter (\<lambda>x. c_id x = c_id c) ds = [c]"
      using Cons.IH by simp
    ultimately show ?thesis by simp
  qed
qed

text \<open>
  Claim C8. For every integer id, \<^verbatim>\<open>GET /categories/{id}/questions\<close> is aborted with
  422 when no category has the id. Otherwise, the ids of the categories being unique,
  the answer is 200: \<^verbatim>\<open>questions\<close> is the page of the questions of that category
  and every question in it has the category id, \<^verbatim>\<open>total_questions\<close> is the number of
  questions of the category, and \<^verbatim>\<open>current_category\<close> is the type label of the
  category. There is no 404: a category without questions gives an empty list with 200.
\<close>

theorem get_questions_by_category_outcome:
  "(\<not> (\<exists>c \<in> set (categories_tbl s). c_id c = i) \<longrightarrow>
      get_questions_by_category conv s arg i = Inl (Abort 422)) \<and>
   (distinct (map c_id (categories_tbl s)) \<longrightarrow>
      (\<forall>c \<in> set (categories_tbl s). c_id c = i \<longrightarrow>
         get_questions_by_category conv s arg i
           = Inr (200, [(''success'', PBool True),
                        (''questions'',
                         PList (get_paginated_questions conv arg
                                  (filter (\<lambda>q. q_category q = i) (questions_tbl s))
                                  QUESTIONS_PER_PAGE)),
                        (''total_questions'',
                         PInt (int (length (filter (\<lambda>q. q_category q = i) (questions_tbl s))))),
                        (''current_category'', PStr (c_type c))]))) \<and>
   (\<forall>v \<in> set (get_paginated_questions conv arg
                   (filter (\<lambda>q. q_category q = i) (questions_tbl s)) QUESTIONS_PER_PAGE).
      field v ''category'' = Some (PInt i)) \<and>
   (filter (\<lambda>q. q_category q = i) (questions_tbl s) = [] \<longrightarrow>
      get_paginated_questions conv arg
        (filter (\<lambda>q. q_category q = i) (questions_tbl s)) QUESTIONS_PER_PAGE = [])"
proof -
  let ?qs = "filter (\<lambda>q. q_category q = i) (questions_tbl s)"
  let ?page = "get_paginated_questions conv arg ?qs QUESTIONS_PER_PAGE"
  have absent: "get_questions_by_category conv s arg i = Inl (Abort 422)"
    if "\<not> (\<exists>c \<in> set (categories_tbl s). c_id c = i)"
  proof -
    from that have "filter (\<lambda>c. c_id c = i) (categories_tbl s) = []"
      by (simp add: filter_empty_conv)
    then show ?thesis
      by (simp add: get_questions_by_category_def categories_all_def one_or_none_def)
  qed
  have present: "get_questions_by_category conv s arg i
           = Inr (200, [(''success'', PBool True), (''questions'', PList ?page),
                        (''total_questions'', PInt (int (length ?qs))),
                        (''current_category'', PStr (c_type c))])"
    if d: "distinct (map c_id (categories_tbl s))" and c: "c \<in> set (categories_tbl s)"
      and i: "c_id c = i" for c
  proof -
    from filter_unique_id [OF d c] i
    have "filter (\<lambda>x. c_id x = i) (categories_tbl s) = [c]" by simp
    then show ?thesis
      by (simp add: get_questions_by_category_def categories_all_def one_or_none_def
          query_filter_by_category_def Let_def)
  qed
  have cat: "field v ''category'' = Some (PInt i)" if "v \<in> set ?page" for v
  proof -
    from that paginated_subset [of conv arg ?qs QUESTIONS_PER_PAGE]
    obtain q where "q \<in> set ?qs" and v: "v = format_question q" by blast
    then have "q_category q = i" by simp
    with v show ?thesis by (simp add: field_category)
  qed
  have empty: "?page = []" if "?qs = []"
    using that paginated_subset [of conv arg ?qs QUESTIONS_PER_PAGE] by simp
  from absent present cat empty show ?thesis by blast
qed

theorem get_questions_by_category_outcome_witness:
  "\<not> (\<exists>c \<in> set (categories_tbl
          \<lparr>questions_tbl = [\<lparr>q_id = 3, q_question = ''q'', q_answer = ''a'', q_difficulty = 1, q_category = 6\<rparr>],
           categories_tbl = [\<lparr>c_id = 6, c_type = ''Sports''\<rparr>]\<rparr>). c_id c = 1987) \<and>
   get_questions_by_category py_int
     \<lparr>questions_tbl = [\<lparr>q_id = 3, q_question = ''q'', q_answer = ''a'', q_difficulty = 1, q_category = 6\<rparr>],
      categories_tbl = [\<lparr>c_id = 6, c_type = ''Sports''\<rparr>]\<rparr> None 1987 = Inl (Abort 422) \<and>
   distinct (map c_id (categories_tbl
          \<lparr>questions_tbl = [\<lparr>q_id = 3, q_question = ''q'', q_answer = ''a'', q_difficulty = 1, q_category = 6\<rparr>],
           categories_tbl = [\<lparr>c_id = 6, c_type = ''Sports''\<rparr>]\<rparr>)) \<and>
   get_questions_by_category py_int
     \<lparr>questions_tbl = [\<lparr>q_id = 3, q_question = ''q'', q_answer = ''a'', q_difficulty = 1, q_category = 6\<rparr>],
      categories_tbl = [\<lparr>c_id = 6, c_type = ''Sports''\<rparr>]\<rparr> None 6
     = Inr (200, [(''success'', PBool True),
                  (''questions'', PList [format_question \<lparr>q_id = 3, q_question = ''q'', q_answer = ''a'', q_difficulty = 1, q_category = 6\<rparr>]),
                  (''total_questions'', PInt 1),
                  (''current_category'', PStr ''Sports'')])"
proof -
  let ?q = "\<lparr>q_id = 3, q_question = ''q'', q_answer = ''a'', q_difficulty = 1, q_category = 6\<rparr>"
  let ?c = "\<lparr>c_id = 6, c_type = ''Sports''\<rparr>"
  let ?s = "\<lparr>questions_tbl = [?q], categories_tbl = [?c]\<rparr>"
  have h1: "\<not> (\<exists>c \<in> set (categories_tbl ?s). c_id c = 1987)" by simp
  have a: "get_questions_by_category py_int ?s None 1987 = Inl (Abort 422)"
    by (rule get_questions_by_category_outcome [where s = ?s and i = 1987 and arg = None and conv = py_int,
          THEN conjunct1, THEN mp, OF h1])
  have h2: "distinct (map c_id (categories_tbl ?s))" by simp
  have h3: "?c \<in> set (categories_tbl ?s)" by simp
  have h4: "c_id ?c = 6" by simp
  have page: "get_paginated_questions py_int None [?q] QUESTIONS_PER_PAGE = [format_question ?q]"
    by (simp add: paginated_from_page_one args_get_page_def)
  have "get_questions_by_category py_int ?s None 6
     = Inr (200, [(''success'', PBool True),
                  (''questions'',
                   PList (get_paginated_questions py_int None
                            (filter (\<lambda>q. q_category q = 6) (questions_tbl ?s))
                            QUESTIONS_PER_PAGE)),
                  (''total_questions'',
                   PInt (int (length (filter (\<lambda>q. q_category q = 6) (questions_tbl ?s))))),
                  (''current_category'', PStr (c_type ?c))])"
    by (rule get_questions_by_category_outcome [where s = ?s and i = 6 and arg = None and conv = py_int,
          THEN conjunct2, THEN conjunct1, THEN mp, OF h2, THEN bspec, OF h3, THEN mp, OF h4])
  then have b: "get_questions_by_category py_int ?s None 6
     = Inr (200, [(''success'', PBool True),
                  (''questions'', PList [format_question ?q]),
                  (''total_questions'', PInt 1),
                  (''current_category'', PStr ''Sports'')])"
    by (simp add: page)
  show ?thesis by (rule conjI [OF h1 conjI [OF a conjI [OF h2 b]]])
qed

section \<open>Searching\<close>

lemma like_match_percent: "like_match ''%'' s"
  by (induction s) simp_all

lemma like_match_literal_prefix:
  assumes "set t \<inter> {CHR ''%'', CHR ''_'', CHR 0x5C} = {}"
  shows "like_match (t @ ''%'') s \<longleftrightarrow> prefix (map to_lower t) (map to_lower s)"
  using assms
proof (induction t arbitrary: s)
  case Nil
  then show ?case by (simp add: like_match_percent)
next
  case (Cons c t)
  then have c: "c \<noteq> CHR ''%''" "c \<noteq> CHR ''_''" "c \<noteq> CHR 0x5C"
    and t: "set t \<inter> {CHR ''%'', CHR ''_'', CHR 0x5C} = {}"
    by auto
  show ?case
  proof (cases s)
    case Nil
    with c show ?thesis by simp
  next
    case (Cons x s')
    with c Cons.IH [OF t, of s'] show ?thesis by auto
  qed
qed

lemma like_match_substring:
  assumes "set t \<inter> {CHR ''%'', CHR ''_'', CHR 0x5C} = {}"
  shows "like_match (''%'' @ t @ ''%'') s \<longleftrightarrow> contains_ci t s"
proof (induction s)
  case Nil
  have "like_match (CHR ''%'' # t @ ''%'') [] \<longleftrightarrow> like_match (t @ ''%'') []" by simp
  also have "\<dots> \<longleftrightarrow> prefix (map to_lower t) (map to_lower [])"
    by (rule like_match_literal_prefix [OF assms])
  finally show ?case by (simp add: contains_ci_def)
next
  case (Cons x s)
  have "like_match (CHR ''%'' # t @ ''%'') (x # s)
      \<longleftrightarrow> like_match (t @ ''%'') (x # s) \<or> like_match (CHR ''%'' # t @ ''%'') s"
    by simp
  also have "\<dots> \<longleftrightarrow> prefix (map to_lower t) (map to_lower (x # s)) \<or> contains_ci t s"
    using like_match_literal_prefix [OF assms, of "x # s"] Cons.IH by simp
  also have "\<dots> \<longleftrightarrow> contains_ci t (x # s)"
    by (simp add: contains_ci_def sublist_Cons_right)
  finally show ?case by simp
qed

lemma search_questions_cases:
  "search_questions conv s arg term =
     (case term of
        None \<Rightarrow> Inl (Abort 422)
      | Some t \<Rightarrow>
          if t = '''' then Inl (Abort 422)
          else if filter (\<lambda>q. like_match (''%'' @ t @ ''%'') (q_question q)) (questions_tbl s) = []
          then Inl (Abort 404)
          else Inr (200, [(''success'', PBool True),
                          (''questions'',
                           PList (get_paginated_questions conv arg
                                    (filter (\<lambda>q. like_match (''%'' @ t @ ''%'') (q_question q))
                                       (questions_tbl s))
                                    QUESTIONS_PER_PAGE)),
                          (''total_questions'', PInt (int (length (questions_tbl s))))]))"
  by (simp add: search_questions_def Let_def ilike_def query_all_def split: option.splits)

text \<open>
  Claim C7. The search is meant to deliver substring matches: the claim says that
  \<^verbatim>\<open>questions\<close> holds only case-insensitive substring matches of the term, and the
  handler's own comments say "add the substring prefix and postfix" and "get all
  questions that has the search term substring". The code does not do that for a term
  with a wildcard, because it hands the term to \<^verbatim>\<open>ilike\<close> without escaping it: the
  term \<^verbatim>\<open>_\<close> is not contained in the text \<^verbatim>\<open>abc\<close>, yet the search answers 200 with
  that question, where a substring search finds nothing.
\<close>

theorem search_questions_wildcard_term:
  "\<not> contains_ci ''_'' ''abc'' \<and>
   search_questions py_int
     \<lparr>questions_tbl = [\<lparr>q_id = 1, q_question = ''abc'', q_answer = ''a'', q_difficulty = 1, q_category = 1\<rparr>],
      categories_tbl = []\<rparr> None (Some ''_'')
     = Inr (200, [(''success'', PBool True),
                  (''questions'', PList [format_question \<lparr>q_id = 1, q_question = ''abc'', q_answer = ''a'', q_difficulty = 1, q_category = 1\<rparr>]),
                  (''total_questions'', PInt 1)])"
proof -
  have "\<not> contains_ci ''_'' ''abc''"
    by (simp add: contains_ci_def sublist_Cons_right to_lower_def)
  moreover have "like_match ''%_%'' ''abc''" by simp
  ultimately show ?thesis
    by (simp add: search_questions_cases paginated_from_page_one args_get_page_def)
qed

text \<open>
  What a successful search returns. The term is present and not empty, the status is
  200, \<^verbatim>\<open>total_questions\<close> is the number of all questions of the store and not the
  number of matches, and \<^verbatim>\<open>questions\<close> is the page of the formatted questions whose
  text matches the pattern \<^verbatim>\<open>%term%\<close> under \<^verbatim>\<open>ILIKE\<close>. For a term without
  \<^verbatim>\<open>%\<close>, \<^verbatim>\<open>_\<close> and backslash these are exactly the questions that contain the
  term, letter case aside, as the comments of the handler intend.
\<close>

theorem search_questions_success:
  "search_questions conv s arg term = Inr (code, body) \<longrightarrow>
     (\<exists>t. term = Some t \<and> t \<noteq> '''' \<and> code = 200 \<and>
        body = [(''success'', PBool True),
                (''questions'',
                 PList (get_paginated_questions conv arg
                          (filter (\<lambda>q. like_match (''%'' @ t @ ''%'') (q_question q))
                             (questions_tbl s))
                          QUESTIONS_PER_PAGE)),
                (''total_questions'', PInt (int (length (questions_tbl s))))] \<and>
        (\<forall>v \<in> set (get_paginated_questions conv arg
                        (filter (\<lambda>q. like_match (''%'' @ t @ ''%'') (q_question q))
                           (questions_tbl s))
                        QUESTIONS_PER_PAGE).
           \<exists>q \<in> set (questions_tbl s).
             v = format_question q \<and> like_match (''%'' @ t @ ''%'') (q_question q)) \<and>
        (set t \<inter> {CHR ''%'', CHR ''_'', CHR 0x5C} = {} \<longrightarrow>
           filter (\<lambda>q. like_match (''%'' @ t @ ''%'') (q_question q)) (questions_tbl s)
             = filter (\<lambda>q. contains_ci t (q_question q)) (questions_tbl s)))"
proof
  assume ok: "search_questions conv s arg term = Inr (code, body)"
  then obtain t where t: "term = Some t" "t \<noteq> ''''"
    by (auto simp: search_questions_cases split: option.splits if_splits)
  let ?m = "filter (\<lambda>q. like_match (''%'' @ t @ ''%'') (q_question q)) (questions_tbl s)"
  let ?page = "get_paginated_questions conv arg ?m QUESTIONS_PER_PAGE"
  from ok t have res: "code = 200 \<and>
      body = [(''success'', PBool True), (''questions'', PList ?page),
              (''total_questions'', PInt (int (length (questions_tbl s))))]"
    by (auto simp: search_questions_cases split: if_splits)
  have only: "\<exists>q \<in> set (questions_tbl s).
      v = format_question q \<and> like_match (''%'' @ t @ ''%'') (q_question q)"
    if "v \<in> set ?page" for v
  proof -
    from that paginated_subset [of conv arg ?m QUESTIONS_PER_PAGE]
    obtain q where "q \<in> set ?m" "v = format_question q" by blast
    then show ?thesis by auto
  qed
  have sub: "?m = filter (\<lambda>q. contains_ci t (q_question q)) (questions_tbl s)"
    if "set t \<inter> {CHR ''%'', CHR ''_'', CHR 0x5C} = {}"
    using like_match_substring [OF that] by simp
  from t res only sub show "\<exists>t. term = Some t \<and> t \<noteq> '''' \<and> code = 200 \<and>
        body = [(''success'', PBool True), (''questions'', PList (get_paginated_questions conv arg
                          (filter (\<lambda>q. like_match (''%'' @ t @ ''%'') (q_question q))
                             (questions_tbl s))
                          QUESTIONS_PER_PAGE)),
                (''total_questions'', PInt (int (length (questions_tbl s))))] \<and>
        (\<forall>v \<in> set (get_paginated_questions conv arg
                        (filter (\<lambda>q. like_match (''%'' @ t @ ''%'') (q_question q))
                           (questions_tbl s))
                        QUESTIONS_PER_PAGE).
           \<exists>q \<in> set (questions_tbl s).
             v = format_question q \<and> like_match (''%'' @ t @ ''%'') (q_question q)) \<and>
        (set t \<inter> {CHR ''%'', CHR ''_'', CHR 0x5C} = {} \<longrightarrow>
           filter (\<lambda>q. like_match (''%'' @ t @ ''%'') (q_question q)) (questions_tbl s)
             = filter (\<lambda>q. contains_ci t (q_question q)) (questions_tbl s))"
    by blast
qed


theorem search_questions_success_witness:
  "search_questions py_int
     \<lparr>questions_tbl = [\<lparr>q_id = 1, q_question = ''Lake'', q_answer = ''a'', q_difficulty = 1, q_category = 1\<rparr>,
                       \<lparr>q_id = 2, q_question = ''Sea'', q_answer = ''b'', q_difficulty = 1, q_category = 1\<rparr>],
      categories_tbl = []\<rparr> None (Some ''AK'')
     = Inr (200, [(''success'', PBool True),
                  (''questions'', PList [format_question \<lparr>q_id = 1, q_question = ''Lake'', q_answer = ''a'', q_difficulty = 1, q_category = 1\<rparr>]),
                  (''total_questions'', PInt 2)]) \<and>
   filter (\<lambda>q. like_match (''%'' @ ''AK'' @ ''%'') (q_question q))
     (questions_tbl \<lparr>questions_tbl = [\<lparr>q_id = 1, q_question = ''Lake'', q_answer = ''a'', q_difficulty = 1, q_category = 1\<rparr>,
                       \<lparr>q_id = 2, q_question = ''Sea'', q_answer = ''b'', q_difficulty = 1, q_category = 1\<rparr>],
                     categories_tbl = []\<rparr>)
   = filter (\<lambda>q. contains_ci ''AK'' (q_question q))
     (questions_tbl \<lparr>questions_tbl = [\<lparr>q_id = 1, q_question = ''Lake'', q_answer = ''a'', q_difficulty = 1, q_category = 1\<rparr>,
                       \<lparr>q_id = 2, q_question = ''Sea'', q_answer = ''b'', q_difficulty = 1, q_category = 1\<rparr>],
                     categories_tbl = []\<rparr>)"
proof -
  let ?q1 = "\<lparr>q_id = 1, q_question = ''Lake'', q_answer = ''a'', q_difficulty = 1, q_category = 1\<rparr>"
  let ?q2 = "\<lparr>q_id = 2, q_question = ''Sea'', q_answer = ''b'', q_difficulty = 1, q_category = 1\<rparr>"
  let ?s = "\<lparr>questions_tbl = [?q1, ?q2], categories_tbl = []\<rparr>"
  let ?body = "[(''success'', PBool True), (''questions'', PList [format_question ?q1]),
                (''total_questions'', PInt 2)]"
  have m1: "like_match ''%AK%'' ''Lake''" by code_simp
  have m2: "\<not> like_match ''%AK%'' ''Sea''" by code_simp
  have h: "search_questions py_int ?s None (Some ''AK'') = Inr (200, ?body)"
    using m1 m2
    by (simp add: search_questions_cases paginated_from_page_one args_get_page_def)
  have free: "set ''AK'' \<inter> {CHR ''%'', CHR ''_'', CHR 0x5C} = {}" by simp
  from search_questions_success [of py_int ?s None "Some ''AK''" 200 ?body, THEN mp, OF h]
  obtain t where t: "Some ''AK'' = Some t"
    and sub: "set t \<inter> {CHR ''%'', CHR ''_'', CHR 0x5C} = {} \<longrightarrow>
         filter (\<lambda>q. like_match (''%'' @ t @ ''%'') (q_question q)) (questions_tbl ?s)
         = filter (\<lambda>q. contains_ci t (q_question q)) (questions_tbl ?s)"
    by (elim exE conjE)
  from t have "t = ''AK''" by (simp only: option.inject)
  with sub free
  have "filter (\<lambda>q. like_match (''%'' @ ''AK'' @ ''%'') (q_question q)) (questions_tbl ?s)
         = filter (\<lambda>q. contains_ci ''AK'' (q_question q)) (questions_tbl ?s)"
    by (simp only: simp_thms)
  with h show ?thesis by (rule conjI)
qed

section \<open>Properties of the quiz picker\<close>

lemma get_random_question_nonempty:
  "questions \<noteq> [] \<Longrightarrow>
     get_random_question rnd k questions = Inr (questions ! (rnd k mod length questions))"
proof -
  assume "questions \<noteq> []"
  then have pos: "\<not> int (length questions) - 1 < 0" by (cases questions) simp_all
  have "nat (int (rnd k) mod int (length questions)) = rnd k mod length questions"
    by (simp add: zmod_int [symmetric])
  with pos show ?thesis
    by (simp add: get_random_question_def randint_def)
qed

lemma get_random_question_empty:
  "get_random_question rnd k [] = Inl ValueError"
  by (simp add: get_random_question_def randint_def)

lemma quiz_loop_result:
  assumes ret: "quiz_loop rnd questions previous k q = Some r"
    and ne: "questions \<noteq> []" and q: "q \<in> set questions"
  shows "\<exists>q' \<in> set questions. r = Inr q' \<and> q_id q' \<notin> set previous"
proof -
  have "questions \<noteq> [] \<longrightarrow> q \<in> set questions \<longrightarrow>
      (\<exists>q' \<in> set questions. r = Inr q' \<and> q_id q' \<notin> set previous)"
  proof (rule quiz_loop.raw_induct
      [where P = "\<lambda>rnd questions previous k q r. questions \<noteq> [] \<longrightarrow> q \<in> set questions \<longrightarrow>
          (\<exists>q' \<in> set questions. r = Inr q' \<and> q_id q' \<notin> set previous)", OF _ ret])
    fix f rnd questions previous k q r
    assume IH: "\<And>rnd questions previous k q r. f rnd questions previous k q = Some r \<Longrightarrow>
        questions \<noteq> [] \<longrightarrow> q \<in> set questions \<longrightarrow>
          (\<exists>q' \<in> set questions. r = Inr q' \<and> q_id q' \<notin> set previous)"
      and eq: "(if q_id q \<in> set previous
          then case get_random_question rnd k questions of
                 Inl e \<Rightarrow> Some (Inl e)
               | Inr q \<Rightarrow> f rnd questions previous (Suc k) q
          else Some (Inr q)) = Some r"
    show "questions \<noteq> [] \<longrightarrow> q \<in> set questions \<longrightarrow>
          (\<exists>q' \<in> set questions. r = Inr q' \<and> q_id q' \<notin> set previous)"
    proof (intro impI)
      assume ne: "questions \<noteq> []" and q: "q \<in> set questions"
      show "\<exists>q' \<in> set questions. r = Inr q' \<and> q_id q' \<notin> set previous"
      proof (cases "q_id q \<in> set previous")
        case False
        with eq q show ?thesis by auto
      next
        case True
        let ?n = "questions ! (rnd k mod length questions)"
        from True eq ne have "f rnd questions previous (Suc k) ?n = Some r"
          by (simp add: get_random_question_nonempty)
        moreover from ne have "?n \<in> set questions" by simp
        ultimately show ?thesis using IH ne by blast
      qed
    qed
  qed
  with ne q show ?thesis by blast
qed

lemma quiz_loop_stops:
  assumes ne: "questions \<noteq> []"
    and ok: "q_id (questions ! (rnd j mod length questions)) \<notin> set previous"
    and kj: "k \<le> j"
  shows "quiz_loop rnd questions previous k q \<noteq> None"
  using kj
proof (induction "j - k" arbitrary: k q)
  case 0
  then have "k = j" by simp
  show ?case
  proof (cases "q_id q \<in> set previous")
    case False
    then show ?thesis by (subst quiz_loop.simps) simp
  next
    case True
    have "quiz_loop rnd questions previous (Suc j) (questions ! (rnd j mod length questions))
        = Some (Inr (questions ! (rnd j mod length questions)))"
      using ok by (subst quiz_loop.simps) simp
    with True ne \<open>k = j\<close> show ?thesis
      by (subst quiz_loop.simps) (simp add: get_random_question_nonempty)
  qed
next
  case (Suc d)
  then have d: "d = j - Suc k" and le: "Suc k \<le> j" by simp_all
  show ?case
  proof (cases "q_id q \<in> set previous")
    case False
    then show ?thesis by (subst quiz_loop.simps) simp
  next
    case True
    from Suc.hyps(1) [OF d le]
    have "quiz_loop rnd questions previous (Suc k) (questions ! (rnd k mod length questions)) \<noteq> None" .
    with True ne show ?thesis
      by (subst quiz_loop.simps) (simp add: get_random_question_nonempty)
  qed
qed

lemma quiz_loop_forever:
  assumes ne: "questions \<noteq> []" and q: "q \<in> set questions"
    and all: "\<forall>q \<in> set questions. q_id q \<in> set previous"
  shows "quiz_loop rnd questions previous k q = None"
proof (cases "quiz_loop rnd questions previous k q")
  case None
  then show ?thesis .
next
  case (Some r)
  from quiz_loop_result [OF Some ne q] all show ?thesis by blast
qed

lemma quiz_loop_stops_only:
  assumes ret: "quiz_loop rnd questions previous k q = Some r"
    and ne: "questions \<noteq> []"
  shows "q_id q \<notin> set previous \<or>
     (\<exists>j\<ge>k. q_id (questions ! (rnd j mod length questions)) \<notin> set previous)"
proof -
  have "questions \<noteq> [] \<longrightarrow> (q_id q \<notin> set previous \<or>
     (\<exists>j\<ge>k. q_id (questions ! (rnd j mod length questions)) \<notin> set previous))"
  proof (rule quiz_loop.raw_induct
      [where P = "\<lambda>rnd questions previous k q r. questions \<noteq> [] \<longrightarrow>
          (q_id q \<notin> set previous \<or>
           (\<exists>j\<ge>k. q_id (questions ! (rnd j mod length questions)) \<notin> set previous))",
        OF _ ret])
    fix f rnd questions previous k q r
    assume IH: "\<And>rnd questions previous k q r. f rnd questions previous k q = Some r \<Longrightarrow>
        questions \<noteq> [] \<longrightarrow> (q_id q \<notin> set previous \<or>
           (\<exists>j\<ge>k. q_id (questions ! (rnd j mod length questions)) \<notin> set previous))"
      and eq: "(if q_id q \<in> set previous
          then case get_random_question rnd k questions of
                 Inl e \<Rightarrow> Some (Inl e)
               | Inr q \<Rightarrow> f rnd questions previous (Suc k) q
          else Some (Inr q)) = Some r"
    show "questions \<noteq> [] \<longrightarrow> (q_id q \<notin> set previous \<or>
           (\<exists>j\<ge>k. q_id (questions ! (rnd j mod length questions)) \<notin> set previous))"
    proof (intro impI)
      assume ne: "questions \<noteq> []"
      show "q_id q \<notin> set previous \<or>
           (\<exists>j\<ge>k. q_id (questions ! (rnd j mod length questions)) \<notin> set previous)"
      proof (cases "q_id q \<in> set previous")
        case False
        then show ?thesis by simp
      next
        case True
        let ?n = "questions ! (rnd k mod length questions)"
        from True eq ne have "f rnd questions previous (Suc k) ?n = Some r"
          by (simp add: get_random_question_nonempty)
        from IH [OF this] ne
        have "q_id ?n \<notin> set previous \<or>
           (\<exists>j\<ge>Suc k. q_id (questions ! (rnd j mod length questions)) \<notin> set previous)"
          by simp
        then show ?thesis
        proof
          assume "q_id ?n \<notin> set previous"
          then show ?thesis by blast
        next
          assume "\<exists>j\<ge>Suc k. q_id (questions ! (rnd j mod length questions)) \<notin> set previous"
          then obtain j where "Suc k \<le> j"
            "q_id (questions ! (rnd j mod length questions)) \<notin> set previous" by blast
          then have "k \<le> j" by simp
          with \<open>q_id (questions ! (rnd j mod length questions)) \<notin> set previous\<close>
          show ?thesis by blast
        qed
      qed
    qed
  qed
  with ne show ?thesis by blast
qed

lemma quiz_get_next_question_missing:
  "previous_questions data = None \<or> quiz_category data = None \<Longrightarrow>
     quiz_get_next_question rnd s data = Some (Inl (Abort 400))"
  by (auto simp: quiz_get_next_question_def split: option.splits)

lemma quiz_get_next_question_empty_pool:
  "previous_questions data = Some previous \<Longrightarrow> quiz_category data = Some category \<Longrightarrow>
   quiz_pool s (qc_id category) = [] \<Longrightarrow>
     quiz_get_next_question rnd s data = Some (Inl (Unhandled ValueError))"
  by (simp add: quiz_get_next_question_def get_random_question_empty)

lemma quiz_get_next_question_draws:
  assumes "previous_questions data = Some previous" "quiz_category data = Some category"
    and "quiz_pool s (qc_id category) \<noteq> []"
  shows "quiz_get_next_question rnd s data =
     (case quiz_loop rnd (quiz_pool s (qc_id category)) previous 1
             (quiz_pool s (qc_id category) ! (rnd 0 mod length (quiz_pool s (qc_id category)))) of
        None \<Rightarrow> None
      | Some (Inl e) \<Rightarrow> Some (Inl (Unhandled e))
      | Some (Inr q) \<Rightarrow>
          Some (Inr (200, [(''success'', PBool True), (''question'', format_question q)])))"
  using assms
  by (simp add: quiz_get_next_question_def get_random_question_nonempty Let_def)

lemma quiz_pool_category:
  "q \<in> set (quiz_pool s i) \<Longrightarrow> i \<noteq> 0 \<Longrightarrow> q_category q = i"
  by (simp add: quiz_pool_def query_filter_by_category_def)

text \<open>
  Claim C1. For every \<^verbatim>\<open>POST /quizzes\<close> request that carries both
  \<^verbatim>\<open>previous_questions\<close> and \<^verbatim>\<open>quiz_category\<close>, a successful answer has status
  200 and returns a question of the candidate pool whose id is not in
  \<^verbatim>\<open>previous_questions\<close> and, when the id of the category is not 0, whose category is
  that id. For the category id 0 the candidate pool is all questions of the store.
\<close>

theorem quiz_success:
  "(previous_questions data = Some previous \<and> quiz_category data = Some category \<and>
    quiz_get_next_question rnd s data = Some (Inr (code, body)) \<longrightarrow>
      code = 200 \<and>
      (\<exists>q \<in> set (quiz_pool s (qc_id category)).
         body = [(''success'', PBool True), (''question'', format_question q)] \<and>
         q_id q \<notin> set previous \<and>
         (qc_id category \<noteq> 0 \<longrightarrow> q_category q = qc_id category))) \<and>
   quiz_pool s 0 = questions_tbl s"
proof (intro conjI impI)
  show "quiz_pool s 0 = questions_tbl s"
    by (simp add: quiz_pool_def query_all_def)
next
  let ?pool = "quiz_pool s (qc_id category)"
  let ?first = "?pool ! (rnd 0 mod length ?pool)"
  assume h: "previous_questions data = Some previous \<and> quiz_category data = Some category \<and>
    quiz_get_next_question rnd s data = Some (Inr (code, body))"
  then have ne: "?pool \<noteq> []"
    using quiz_get_next_question_empty_pool [of data previous category s rnd] by auto
  with h have eq: "(case quiz_loop rnd ?pool previous 1 ?first of
        None \<Rightarrow> None
      | Some (Inl e) \<Rightarrow> Some (Inl (Unhandled e))
      | Some (Inr q) \<Rightarrow>
          Some (Inr (200, [(''success'', PBool True), (''question'', format_question q)])))
      = Some (Inr (code, body))"
    using quiz_get_next_question_draws [of data previous category s rnd] by simp
  then obtain q where loop: "quiz_loop rnd ?pool previous 1 ?first = Some (Inr q)"
    and res: "code = 200" "body = [(''success'', PBool True), (''question'', format_question q)]"
    by (auto split: option.splits sum.splits)
  from ne have "?first \<in> set ?pool" by simp
  from quiz_loop_result [OF loop ne this]
  have q: "q \<in> set ?pool" "q_id q \<notin> set previous" by auto
  from res show "code = 200" by simp
  from q res quiz_pool_category [of q s "qc_id category"]
  show "\<exists>q \<in> set ?pool.
         body = [(''success'', PBool True), (''question'', format_question q)] \<and>
         q_id q \<notin> set previous \<and>
         (qc_id category \<noteq> 0 \<longrightarrow> q_category q = qc_id category)"
    by blast
qed

text \<open>
  Claim C2, amended. For every request with both fields present and a candidate pool that
  is not empty, the retry loop ends exactly when some draw delivers a candidate whose id
  is not in \<^verbatim>\<open>previous_questions\<close>. The loop keeps no record of the candidates it
  has drawn and has no bound: when every candidate's id is in
  \<^verbatim>\<open>previous_questions\<close>, it runs forever, whatever the draws are.
\<close>

theorem quiz_termination:
  "previous_questions data = Some previous \<and> quiz_category data = Some category \<and>
   quiz_pool s (qc_id category) \<noteq> [] \<longrightarrow>
     (quiz_get_next_question rnd s data \<noteq> None \<longleftrightarrow>
        (\<exists>j. q_id (quiz_pool s (qc_id category) ! (rnd j mod length (quiz_pool s (qc_id category))))
               \<notin> set previous)) \<and>
     ((\<forall>q \<in> set (quiz_pool s (qc_id category)). q_id q \<in> set previous) \<longrightarrow>
        quiz_get_next_question rnd s data = None)"
proof
  let ?pool = "quiz_pool s (qc_id category)"
  let ?first = "?pool ! (rnd 0 mod length ?pool)"
  let ?loop = "quiz_loop rnd ?pool previous 1 ?first"
  assume h: "previous_questions data = Some previous \<and> quiz_category data = Some category \<and>
   ?pool \<noteq> []"
  then have ne: "?pool \<noteq> []" by simp
  from h have eq: "quiz_get_next_question rnd s data =
     (case ?loop of
        None \<Rightarrow> None
      | Some (Inl e) \<Rightarrow> Some (Inl (Unhandled e))
      | Some (Inr q) \<Rightarrow>
          Some (Inr (200, [(''success'', PBool True), (''question'', format_question q)])))"
    using quiz_get_next_question_draws [of data previous category s rnd] by simp
  have ret: "quiz_get_next_question rnd s data \<noteq> None \<longleftrightarrow> ?loop \<noteq> None"
    unfolding eq by (simp split: option.splits sum.splits)
  from ne have first: "?first \<in> set ?pool" by simp
  have stops: "?loop \<noteq> None" if "q_id (?pool ! (rnd j mod length ?pool)) \<notin> set previous" for j
  proof (cases j)
    case 0
    with that have "q_id ?first \<notin> set previous" by simp
    then show ?thesis by (subst quiz_loop.simps) simp
  next
    case (Suc i)
    then have "1 \<le> j" by simp
    with ne that show ?thesis
      by (intro quiz_loop_stops [where j = j])
  qed
  have only: "\<exists>j. q_id (?pool ! (rnd j mod length ?pool)) \<notin> set previous" if "?loop \<noteq> None"
  proof -
    from that obtain r where "?loop = Some r" by blast
    from quiz_loop_stops_only [OF this ne] show ?thesis by blast
  qed
  have forever: "quiz_get_next_question rnd s data = None"
    if "\<forall>q \<in> set ?pool. q_id q \<in> set previous"
    using quiz_loop_forever [OF ne first that] ret by simp
  from stops only ret forever
  show "(quiz_get_next_question rnd s data \<noteq> None \<longleftrightarrow>
        (\<exists>j. q_id (?pool ! (rnd j mod length ?pool)) \<notin> set previous)) \<and>
     ((\<forall>q \<in> set ?pool. q_id q \<in> set previous) \<longrightarrow>
        quiz_get_next_question rnd s data = None)"
    by blast
qed

lemma quiz_example_run:
  "quiz_get_next_question id
     \<lparr>questions_tbl = [\<lparr>q_id = 1, q_question = ''q'', q_answer = ''a'', q_difficulty = 1, q_category = 4\<rparr>,
                       \<lparr>q_id = 2, q_question = ''r'', q_answer = ''b'', q_difficulty = 1, q_category = 4\<rparr>],
      categories_tbl = []\<rparr>
     \<lparr>previous_questions = Some [1], quiz_category = Some \<lparr>qc_type = ''History'', qc_id = 4\<rparr>\<rparr>
   = Some (Inr (200, [(''success'', PBool True),
                      (''question'', format_question \<lparr>q_id = 2, q_question = ''r'', q_answer = ''b'', q_difficulty = 1, q_category = 4\<rparr>)]))"
proof -
  let ?q1 = "\<lparr>q_id = 1, q_question = ''q'', q_answer = ''a'', q_difficulty = 1, q_category = 4\<rparr>"
  let ?q2 = "\<lparr>q_id = 2, q_question = ''r'', q_answer = ''b'', q_difficulty = 1, q_category = 4\<rparr>"
  let ?s = "\<lparr>questions_tbl = [?q1, ?q2], categories_tbl = []\<rparr>"
  let ?c = "\<lparr>qc_type = ''History'', qc_id = 4\<rparr>"
  let ?d = "\<lparr>previous_questions = Some [1], quiz_category = Some ?c\<rparr>"
  have pool: "quiz_pool ?s 4 = [?q1, ?q2]"
    by (simp add: quiz_pool_def query_filter_by_category_def)
  have second: "quiz_loop id [?q1, ?q2] [1] (Suc (Suc 0)) ?q2 = Some (Inr ?q2)"
    by (subst quiz_loop.simps) simp
  have draw: "get_random_question id (Suc 0) [?q1, ?q2] = Inr ?q2"
    by (simp add: get_random_question_nonempty)
  have loop: "quiz_loop id [?q1, ?q2] [1] (Suc 0) ?q1 = Some (Inr ?q2)"
    by (subst quiz_loop.simps) (simp add: draw second)
  have "quiz_get_next_question id ?s ?d =
     (case quiz_loop id (quiz_pool ?s (qc_id ?c)) [1] 1
             (quiz_pool ?s (qc_id ?c) ! (id 0 mod length (quiz_pool ?s (qc_id ?c)))) of
        None \<Rightarrow> None
      | Some (Inl e) \<Rightarrow> Some (Inl (Unhandled e))
      | Some (Inr q) \<Rightarrow>
          Some (Inr (200, [(''success'', PBool True), (''question'', format_question q)])))"
    by (rule quiz_get_next_question_draws) (simp_all add: pool)
  then show ?thesis by (simp add: pool loop)
qed

lemma quiz_example_pool:
  "quiz_pool
     \<lparr>questions_tbl = [\<lparr>q_id = 1, q_question = ''q'', q_answer = ''a'', q_difficulty = 1, q_category = 4\<rparr>,
                       \<lparr>q_id = 2, q_question = ''r'', q_answer = ''b'', q_difficulty = 1, q_category = 4\<rparr>],
      categories_tbl = []\<rparr>
     (qc_id \<lparr>qc_type = ''History'', qc_id = 4\<rparr>) \<noteq> []"
  by (simp add: quiz_pool_def query_filter_by_category_def)

theorem quiz_success_witness:
  "previous_questions \<lparr>previous_questions = Some [1], quiz_category = Some \<lparr>qc_type = ''History'', qc_id = 4\<rparr>\<rparr> = Some [1] \<and>
   quiz_category \<lparr>previous_questions = Some [1], quiz_category = Some \<lparr>qc_type = ''History'', qc_id = 4\<rparr>\<rparr>
     = Some \<lparr>qc_type = ''History'', qc_id = 4\<rparr> \<and>
   quiz_get_next_question id
     \<lparr>questions_tbl = [\<lparr>q_id = 1, q_question = ''q'', q_answer = ''a'', q_difficulty = 1, q_category = 4\<rparr>,
                       \<lparr>q_id = 2, q_question = ''r'', q_answer = ''b'', q_difficulty = 1, q_category = 4\<rparr>],
      categories_tbl = []\<rparr>
     \<lparr>previous_questions = Some [1], quiz_category = Some \<lparr>qc_type = ''History'', qc_id = 4\<rparr>\<rparr>
   = Some (Inr (200, [(''success'', PBool True),
                      (''question'', format_question \<lparr>q_id = 2, q_question = ''r'', q_answer = ''b'', q_difficulty = 1, q_category = 4\<rparr>)])) \<and>
   (\<exists>q \<in> set (quiz_pool
         \<lparr>questions_tbl = [\<lparr>q_id = 1, q_question = ''q'', q_answer = ''a'', q_difficulty = 1, q_category = 4\<rparr>,
                           \<lparr>q_id = 2, q_question = ''r'', q_answer = ''b'', q_difficulty = 1, q_category = 4\<rparr>],
          categories_tbl = []\<rparr>
         (qc_id \<lparr>qc_type = ''History'', qc_id = 4\<rparr>)).
      [(''success'', PBool True),
       (''question'', format_question \<lparr>q_id = 2, q_question = ''r'', q_answer = ''b'', q_difficulty = 1, q_category = 4\<rparr>)]
        = [(''success'', PBool True), (''question'', format_question q)] \<and>
      q_id q \<notin> set [1] \<and>
      (qc_id \<lparr>qc_type = ''History'', qc_id = 4\<rparr> \<noteq> 0 \<longrightarrow>
         q_category q = qc_id \<lparr>qc_type = ''History'', qc_id = 4\<rparr>))"
proof -
  let ?q1 = "\<lparr>q_id = 1, q_question = ''q'', q_answer = ''a'', q_difficulty = 1, q_category = 4\<rparr>"
  let ?q2 = "\<lparr>q_id = 2, q_question = ''r'', q_answer = ''b'', q_difficulty = 1, q_category = 4\<rparr>"
  let ?s = "\<lparr>questions_tbl = [?q1, ?q2], categories_tbl = []\<rparr>"
  let ?c = "\<lparr>qc_type = ''History'', qc_id = 4\<rparr>"
  let ?d = "\<lparr>previous_questions = Some [1], quiz_category = Some ?c\<rparr>"
  let ?body = "[(''success'', PBool True), (''question'', format_question ?q2)]"
  have h1: "previous_questions ?d = Some [1]" by simp
  have h2: "quiz_category ?d = Some ?c" by simp
  note h3 = quiz_example_run
  note c = quiz_success [where data = ?d and previous = "[1]" and category = ?c and rnd = id
      and s = ?s and code = 200 and body = ?body,
      THEN conjunct1, THEN mp, OF conjI [OF h1 conjI [OF h2 h3]], THEN conjunct2]
  show ?thesis by (rule conjI [OF h1 conjI [OF h2 conjI [OF h3 c]]])
qed

text \<open>
  Claim C2, as stated, says that the retry loop ends for every input, also when every
  candidate's id is in \<^verbatim>\<open>previous_questions\<close>. For a store with the one question 1,
  the category id 0 and the previous questions \<^verbatim>\<open>[1]\<close>, the pool is not empty and the
  request never returns.
\<close>

theorem quiz_termination_counterexample:
  "previous_questions \<lparr>previous_questions = Some [1], quiz_category = Some \<lparr>qc_type = ''click'', qc_id = 0\<rparr>\<rparr> = Some [1] \<and>
   quiz_category \<lparr>previous_questions = Some [1], quiz_category = Some \<lparr>qc_type = ''click'', qc_id = 0\<rparr>\<rparr>
     = Some \<lparr>qc_type = ''click'', qc_id = 0\<rparr> \<and>
   quiz_pool \<lparr>questions_tbl = [\<lparr>q_id = 1, q_question = ''q'', q_answer = ''a'', q_difficulty = 1, q_category = 4\<rparr>],
              categories_tbl = []\<rparr> 0
     = [\<lparr>q_id = 1, q_question = ''q'', q_answer = ''a'', q_difficulty = 1, q_category = 4\<rparr>] \<and>
   quiz_get_next_question id
     \<lparr>questions_tbl = [\<lparr>q_id = 1, q_question = ''q'', q_answer = ''a'', q_difficulty = 1, q_category = 4\<rparr>],
      categories_tbl = []\<rparr>
     \<lparr>previous_questions = Some [1], quiz_category = Some \<lparr>qc_type = ''click'', qc_id = 0\<rparr>\<rparr>
   = None"
proof -
  let ?q1 = "\<lparr>q_id = 1, q_question = ''q'', q_answer = ''a'', q_difficulty = 1, q_category = 4\<rparr>"
  let ?s = "\<lparr>questions_tbl = [?q1], categories_tbl = []\<rparr>"
  let ?c = "\<lparr>qc_type = ''click'', qc_id = 0\<rparr>"
  let ?d = "\<lparr>previous_questions = Some [1], quiz_category = Some ?c\<rparr>"
  have h1: "previous_questions ?d = Some [1]" by simp
  have h2: "quiz_category ?d = Some ?c" by simp
  have pool: "quiz_pool ?s 0 = [?q1]" by (simp add: quiz_pool_def query_all_def)
  have loop: "quiz_loop id [?q1] [1] (Suc 0) ?q1 = None"
    by (rule quiz_loop_forever) simp_all
  have "quiz_get_next_question id ?s ?d =
     (case quiz_loop id (quiz_pool ?s (qc_id ?c)) [1] 1
             (quiz_pool ?s (qc_id ?c) ! (id 0 mod length (quiz_pool ?s (qc_id ?c)))) of
        None \<Rightarrow> None
      | Some (Inl e) \<Rightarrow> Some (Inl (Unhandled e))
      | Some (Inr q) \<Rightarrow>
          Some (Inr (200, [(''success'', PBool True), (''question'', format_question q)])))"
    by (rule quiz_get_next_question_draws) (simp_all add: pool)
  then have none: "quiz_get_next_question id ?s ?d = None" by (simp add: pool loop)
  show ?thesis by (rule conjI [OF h1 conjI [OF h2 conjI [OF pool none]]])
qed

theorem quiz_termination_witness:
  "previous_questions \<lparr>previous_questions = Some [1], quiz_category = Some \<lparr>qc_type = ''History'', qc_id = 4\<rparr>\<rparr> = Some [1] \<and>
   quiz_category \<lparr>previous_questions = Some [1], quiz_category = Some \<lparr>qc_type = ''History'', qc_id = 4\<rparr>\<rparr>
     = Some \<lparr>qc_type = ''History'', qc_id = 4\<rparr> \<and>
   quiz_pool
     \<lparr>questions_tbl = [\<lparr>q_id = 1, q_question = ''q'', q_answer = ''a'', q_difficulty = 1, q_category = 4\<rparr>,
                       \<lparr>q_id = 2, q_question = ''r'', q_answer = ''b'', q_difficulty = 1, q_category = 4\<rparr>],
      categories_tbl = []\<rparr>
     (qc_id \<lparr>qc_type = ''History'', qc_id = 4\<rparr>) \<noteq> [] \<and>
   quiz_get_next_question id
     \<lparr>questions_tbl = [\<lparr>q_id = 1, q_question = ''q'', q_answer = ''a'', q_difficulty = 1, q_category = 4\<rparr>,
                       \<lparr>q_id = 2, q_question = ''r'', q_answer = ''b'', q_difficulty = 1, q_category = 4\<rparr>],
      categories_tbl = []\<rparr>
     \<lparr>previous_questions = Some [1], quiz_category = Some \<lparr>qc_type = ''History'', qc_id = 4\<rparr>\<rparr>
     \<noteq> None"
proof -
  let ?q1 = "\<lparr>q_id = 1, q_question = ''q'', q_answer = ''a'', q_difficulty = 1, q_category = 4\<rparr>"
  let ?q2 = "\<lparr>q_id = 2, q_question = ''r'', q_answer = ''b'', q_difficulty = 1, q_category = 4\<rparr>"
  let ?s = "\<lparr>questions_tbl = [?q1, ?q2], categories_tbl = []\<rparr>"
  let ?c = "\<lparr>qc_type = ''History'', qc_id = 4\<rparr>"
  let ?d = "\<lparr>previous_questions = Some [1], quiz_category = Some ?c\<rparr>"
  have h1: "previous_questions ?d = Some [1]" by simp
  have h2: "quiz_category ?d = Some ?c" by simp
  note h3 = quiz_example_pool
  have pool: "quiz_pool ?s (qc_id ?c) = [?q1, ?q2]"
    by (simp add: quiz_pool_def query_filter_by_category_def)
  have "q_id (quiz_pool ?s (qc_id ?c) ! (id 1 mod length (quiz_pool ?s (qc_id ?c)))) \<notin> set [1]"
    unfolding pool by simp
  then have ex: "\<exists>j. q_id (quiz_pool ?s (qc_id ?c) ! (id j mod length (quiz_pool ?s (qc_id ?c))))
      \<notin> set [1]"
    by (rule exI [where x = 1 and
          P = "\<lambda>j. q_id (quiz_pool ?s (qc_id ?c) ! (id j mod length (quiz_pool ?s (qc_id ?c))))
                 \<notin> set [1]"])
  note t = quiz_termination [where data = ?d and previous = "[1]" and category = ?c and rnd = id
      and s = ?s, THEN mp, OF conjI [OF h1 conjI [OF h2 h3]], THEN conjunct1, THEN iffD2, OF ex]
  show ?thesis by (rule conjI [OF h1 conjI [OF h2 conjI [OF h3 t]]])
qed

section \<open>The quiz picker on the raw body\<close>

text \<open>
  A value of \<^verbatim>\<open>previous_questions\<close> that is neither a list nor a dictionary cannot be
  searched; one that is holds, as far as the loop can tell, a set of integers, and on it
  the loop is the loop on a list of ids.
\<close>

lemma py_in_not_container:
  "(\<forall>l. v \<noteq> PList l) \<and> (\<forall>d. v \<noteq> PDict d) \<Longrightarrow> py_in n v = Inl TypeError"
  by (cases v) (simp_all add: py_in_def)

lemma equal_ints_exist: "\<exists>xs. \<forall>n. list_ex (\<lambda>x. py_eq_int x n) l = (n \<in> set xs)"
proof (induction l)
  case Nil
  then show ?case by simp
next
  case (Cons v l)
  then obtain xs where xs: "\<forall>n. list_ex (\<lambda>x. py_eq_int x n) l = (n \<in> set xs)" by blast
  show ?case
  proof (cases v)
    case (PInt m)
    with xs have "\<forall>n. list_ex (\<lambda>x. py_eq_int x n) (v # l) = (n \<in> set (m # xs))"
      by (auto simp: py_eq_int_def)
    then show ?thesis by blast
  next
    case (PBool b)
    with xs have "\<forall>n. list_ex (\<lambda>x. py_eq_int x n) (v # l)
        = (n \<in> set ((if b then 1 else 0) # xs))"
      by (auto simp: py_eq_int_def)
    then show ?thesis by blast
  qed (insert xs, auto simp: py_eq_int_def)
qed

lemma py_in_container:
  assumes "v = PList l \<or> v = PDict d"
  shows "\<exists>xs. \<forall>n. py_in n v = Inr (n \<in> set xs)"
proof -
  from assms consider "v = PList l" | "v = PDict d" by blast
  then show ?thesis
  proof cases
    case 1
    with equal_ints_exist [of l] show ?thesis by (simp add: py_in_def)
  next
    case 2
    with equal_ints_exist [of "map fst d"] show ?thesis by (simp add: py_in_def)
  qed
qed

lemma quiz_loop_json_typed:
  assumes mem: "\<forall>n. py_in n previous = Inr (n \<in> set xs)"
  shows "quiz_loop_json rnd questions previous k q = quiz_loop rnd questions xs k q"
proof -
  have to_typed: "quiz_loop rnd questions xs k q = Some r"
    if ret: "quiz_loop_json rnd questions previous k q = Some r" for k q r
  proof -
    have "(\<forall>n. py_in n previous = Inr (n \<in> set xs)) \<longrightarrow>
        quiz_loop rnd questions xs k q = Some r"
    proof (rule quiz_loop_json.raw_induct
        [where P = "\<lambda>rnd questions previous k q r.
            (\<forall>n. py_in n previous = Inr (n \<in> set xs)) \<longrightarrow>
              quiz_loop rnd questions xs k q = Some r", OF _ ret])
      fix f rnd questions previous k q r
      assume IH: "\<And>rnd questions previous k q r. f rnd questions previous k q = Some r \<Longrightarrow>
          (\<forall>n. py_in n previous = Inr (n \<in> set xs)) \<longrightarrow>
            quiz_loop rnd questions xs k q = Some r"
        and eq: "(case py_in (q_id q) previous of
            Inl e \<Rightarrow> Some (Inl e)
          | Inr found \<Rightarrow>
              if found
              then case get_random_question rnd k questions of
                     Inl e \<Rightarrow> Some (Inl e)
                   | Inr q \<Rightarrow> f rnd questions previous (Suc k) q
              else Some (Inr q)) = Some r"
      show "(\<forall>n. py_in n previous = Inr (n \<in> set xs)) \<longrightarrow>
            quiz_loop rnd questions xs k q = Some r"
      proof
        assume m: "\<forall>n. py_in n previous = Inr (n \<in> set xs)"
        show "quiz_loop rnd questions xs k q = Some r"
        proof (cases "q_id q \<in> set xs")
          case False
          with eq m show ?thesis by (subst quiz_loop.simps) simp
        next
          case True
          show ?thesis
          proof (cases "get_random_question rnd k questions")
            case (Inl e)
            with True eq m have "r = Inl e" by simp
            with True Inl show ?thesis by (subst quiz_loop.simps) simp
          next
            case (Inr q')
            with True eq m have "f rnd questions previous (Suc k) q' = Some r" by simp
            with IH m have "quiz_loop rnd questions xs (Suc k) q' = Some r" by blast
            with True Inr show ?thesis by (subst quiz_loop.simps) simp
          qed
        qed
      qed
    qed
    with mem show ?thesis by blast
  qed
  have to_json: "quiz_loop_json rnd questions previous k q = Some r"
    if ret: "quiz_loop rnd questions xs k q = Some r" for k q r
  proof -
    have "(\<forall>n. py_in n previous = Inr (n \<in> set xs)) \<longrightarrow>
        quiz_loop_json rnd questions previous k q = Some r"
    proof (rule quiz_loop.raw_induct
        [where P = "\<lambda>rnd questions xs k q r.
            (\<forall>n. py_in n previous = Inr (n \<in> set xs)) \<longrightarrow>
              quiz_loop_json rnd questions previous k q = Some r", OF _ ret])
      fix f rnd questions xs k q r
      assume IH: "\<And>rnd questions xs k q r. f rnd questions xs k q = Some r \<Longrightarrow>
          (\<forall>n. py_in n previous = Inr (n \<in> set xs)) \<longrightarrow>
            quiz_loop_json rnd questions previous k q = Some r"
        and eq: "(if q_id q \<in> set xs
          then case get_random_question rnd k questions of
                 Inl e \<Rightarrow> Some (Inl e)
               | Inr q \<Rightarrow> f rnd questions xs (Suc k) q
          else Some (Inr q)) = Some r"
      show "(\<forall>n. py_in n previous = Inr (n \<in> set xs)) \<longrightarrow>
            quiz_loop_json rnd questions previous k q = Some r"
      proof
        assume m: "\<forall>n. py_in n previous = Inr (n \<in> set xs)"
        show "quiz_loop_json rnd questions previous k q = Some r"
        proof (cases "q_id q \<in> set xs")
          case False
          with eq m show ?thesis by (subst quiz_loop_json.simps) simp
        next
          case True
          show ?thesis
          proof (cases "get_random_question rnd k questions")
            case (Inl e)
            with True eq have "r = Inl e" by simp
            with True Inl m show ?thesis by (subst quiz_loop_json.simps) simp
          next
            case (Inr q')
            with True eq have "f rnd questions xs (Suc k) q' = Some r" by simp
            with IH m have "quiz_loop_json rnd questions previous (Suc k) q' = Some r" by blast
            with True Inr m show ?thesis by (subst quiz_loop_json.simps) simp
          qed
        qed
      qed
    qed
    with mem show ?thesis by blast
  qed
  show ?thesis
  proof (cases "quiz_loop_json rnd questions previous k q")
    case None
    show ?thesis
    proof (cases "quiz_loop rnd questions xs k q")
      case (Some r)
      from to_json [OF this] None show ?thesis by simp
    qed (simp add: None)
  next
    case (Some r)
    from to_typed [OF this] Some show ?thesis by simp
  qed
qed

lemma quiz_loop_json_type_error:
  "(\<forall>l. previous \<noteq> PList l) \<and> (\<forall>d. previous \<noteq> PDict d) \<Longrightarrow>
     quiz_loop_json rnd questions previous k q = Some (Inl TypeError)"
  by (subst quiz_loop_json.simps) (simp add: py_in_not_container)

lemma quiz_json_missing:
  "dict_get data ''quiz_category'' PNone = PNone \<or>
   dict_get data ''previous_questions'' PNone = PNone \<Longrightarrow>
     quiz_get_next_question_json cf rnd s data = Some (Inl (Abort 400))"
  by (auto simp: quiz_get_next_question_json_def Let_def)

lemma quiz_json_pool_error:
  "dict_get data ''quiz_category'' PNone \<noteq> PNone \<Longrightarrow>
   dict_get data ''previous_questions'' PNone \<noteq> PNone \<Longrightarrow>
   quiz_questions cf s (dict_get data ''quiz_category'' PNone) = Inl e \<Longrightarrow>
     quiz_get_next_question_json cf rnd s data = Some (Inl (Unhandled e))"
  by (simp add: quiz_get_next_question_json_def Let_def)

lemma quiz_json_pool_empty:
  "dict_get data ''quiz_category'' PNone \<noteq> PNone \<Longrightarrow>
   dict_get data ''previous_questions'' PNone \<noteq> PNone \<Longrightarrow>
   quiz_questions cf s (dict_get data ''quiz_category'' PNone) = Inr [] \<Longrightarrow>
     quiz_get_next_question_json cf rnd s data = Some (Inl (Unhandled ValueError))"
  by (simp add: quiz_get_next_question_json_def Let_def get_random_question_empty)

lemma quiz_json_draws:
  assumes "dict_get data ''quiz_category'' PNone \<noteq> PNone"
    and "dict_get data ''previous_questions'' PNone \<noteq> PNone"
    and "quiz_questions cf s (dict_get data ''quiz_category'' PNone) = Inr questions"
    and "questions \<noteq> []"
  shows "quiz_get_next_question_json cf rnd s data =
     (case quiz_loop_json rnd questions (dict_get data ''previous_questions'' PNone) 1
             (questions ! (rnd 0 mod length questions)) of
        None \<Rightarrow> None
      | Some (Inl e) \<Rightarrow> Some (Inl (Unhandled e))
      | Some (Inr q) \<Rightarrow>
          Some (Inr (200, [(''success'', PBool True), (''question'', format_question q)])))"
  using assms
  by (simp add: quiz_get_next_question_json_def Let_def get_random_question_nonempty)

text \<open>
  Claim C9, amended. \<^verbatim>\<open>POST /quizzes\<close> ends with one of three statuses, if it ends.
  It is 400 exactly when \<^verbatim>\<open>previous_questions\<close> or \<^verbatim>\<open>quiz_category\<close> is missing
  or null. It is 500 exactly when both are present and reading \<^verbatim>\<open>quiz_category['id']\<close>
  raises, or the storage engine refuses the filter, or the candidate pool is empty, or
  \<^verbatim>\<open>previous_questions\<close> is neither a list nor a dictionary. In every other case the
  request is answered with 200 and a question, or not at all; and with a list or a
  dictionary and a pool that is not empty it is answered exactly when some draw delivers a
  candidate whose id is not in \<^verbatim>\<open>previous_questions\<close>.
\<close>

theorem quiz_status_exact:
  assumes p: "previous = dict_get data ''previous_questions'' PNone"
    and c: "category = dict_get data ''quiz_category'' PNone"
  shows
  "(category = PNone \<or> previous = PNone \<longrightarrow>
      quiz_get_next_question_json cf rnd s data = Some (Inl (Abort 400))) \<and>
   (category \<noteq> PNone \<and> previous \<noteq> PNone \<and>
    ((\<exists>e. quiz_questions cf s category = Inl e) \<or> quiz_questions cf s category = Inr [] \<or>
     (\<forall>l. previous \<noteq> PList l) \<and> (\<forall>d. previous \<noteq> PDict d)) \<longrightarrow>
      (\<exists>e. quiz_get_next_question_json cf rnd s data = Some (Inl (Unhandled e)))) \<and>
   (category \<noteq> PNone \<and> previous \<noteq> PNone \<and>
    \<not> ((\<exists>e. quiz_questions cf s category = Inl e) \<or> quiz_questions cf s category = Inr [] \<or>
       (\<forall>l. previous \<noteq> PList l) \<and> (\<forall>d. previous \<noteq> PDict d)) \<longrightarrow>
      quiz_get_next_question_json cf rnd s data = None \<or>
      (\<exists>q. quiz_get_next_question_json cf rnd s data
             = Some (Inr (200, [(''success'', PBool True), (''question'', format_question q)])))) \<and>
   (quiz_get_next_question_json cf rnd s data = Some r \<longrightarrow>
      (status_code r = 400 \<longleftrightarrow> category = PNone \<or> previous = PNone) \<and>
      (status_code r = 500 \<longleftrightarrow>
         category \<noteq> PNone \<and> previous \<noteq> PNone \<and>
         ((\<exists>e. quiz_questions cf s category = Inl e) \<or> quiz_questions cf s category = Inr [] \<or>
          (\<forall>l. previous \<noteq> PList l) \<and> (\<forall>d. previous \<noteq> PDict d))) \<and>
      (status_code r = 200 \<or> status_code r = 400 \<or> status_code r = 500)) \<and>
   (category \<noteq> PNone \<and> previous \<noteq> PNone \<and>
    quiz_questions cf s category = Inr questions \<and> questions \<noteq> [] \<and>
    \<not> ((\<forall>l. previous \<noteq> PList l) \<and> (\<forall>d. previous \<noteq> PDict d)) \<longrightarrow>
      (quiz_get_next_question_json cf rnd s data \<noteq> None \<longleftrightarrow>
         (\<exists>j. py_in (q_id (questions ! (rnd j mod length questions))) previous = Inr False)))"
proof -
  let ?R = "quiz_get_next_question_json cf rnd s data"
  let ?missing = "category = PNone \<or> previous = PNone"
  let ?faults = "(\<exists>e. quiz_questions cf s category = Inl e) \<or>
      quiz_questions cf s category = Inr [] \<or>
      (\<forall>l. previous \<noteq> PList l) \<and> (\<forall>d. previous \<noteq> PDict d)"
  have missing: "?R = Some (Inl (Abort 400))" if "?missing"
    using that quiz_json_missing [of data cf rnd s] by (auto simp: p c)
  have faults: "\<exists>e. ?R = Some (Inl (Unhandled e))" if present: "\<not> ?missing" and f: "?faults"
  proof -
    from present have pc: "dict_get data ''quiz_category'' PNone \<noteq> PNone"
      "dict_get data ''previous_questions'' PNone \<noteq> PNone" by (simp_all add: p c)
    show ?thesis
    proof (cases "quiz_questions cf s category")
      case (Inl e)
      then show ?thesis using quiz_json_pool_error [OF pc, of cf s e rnd] by (simp add: c)
    next
      case (Inr questions)
      show ?thesis
      proof (cases "questions = []")
        case True
        with Inr show ?thesis using quiz_json_pool_empty [OF pc, of cf s rnd] by (simp add: c)
      next
        case False
        with Inr f have "(\<forall>l. previous \<noteq> PList l) \<and> (\<forall>d. previous \<noteq> PDict d)" by simp
        then have "quiz_loop_json rnd questions previous 1 (questions ! (rnd 0 mod length questions))
            = Some (Inl TypeError)"
          by (rule quiz_loop_json_type_error)
        with Inr False show ?thesis
          using quiz_json_draws [OF pc, of cf s questions rnd] by (simp add: p c)
      qed
    qed
  qed
  have runs: "?R = (case quiz_loop rnd questions xs 1 (questions ! (rnd 0 mod length questions)) of
        None \<Rightarrow> None
      | Some (Inl e) \<Rightarrow> Some (Inl (Unhandled e))
      | Some (Inr q) \<Rightarrow>
          Some (Inr (200, [(''success'', PBool True), (''question'', format_question q)])))"
    if present: "\<not> ?missing" and pool: "quiz_questions cf s category = Inr questions"
      and ne: "questions \<noteq> []" and mem: "\<forall>n. py_in n previous = Inr (n \<in> set xs)"
    for questions xs
  proof -
    from present have pc: "dict_get data ''quiz_category'' PNone \<noteq> PNone"
      "dict_get data ''previous_questions'' PNone \<noteq> PNone" by (simp_all add: p c)
    from pool have pool': "quiz_questions cf s (dict_get data ''quiz_category'' PNone) = Inr questions"
      by (simp add: c)
    show ?thesis
      unfolding quiz_json_draws [OF pc pool' ne] p [symmetric]
      by (simp only: quiz_loop_json_typed [OF mem])
  qed
  have answered: "?R = None \<or>
      (\<exists>q. ?R = Some (Inr (200, [(''success'', PBool True), (''question'', format_question q)])))"
    if present: "\<not> ?missing" and ok: "\<not> ?faults"
  proof -
    from ok obtain questions where pool: "quiz_questions cf s category = Inr questions"
      and ne: "questions \<noteq> []"
      by (cases "quiz_questions cf s category") auto
    from ok obtain l d where "previous = PList l \<or> previous = PDict d" by blast
    from py_in_container [OF this] obtain xs
      where mem: "\<forall>n. py_in n previous = Inr (n \<in> set xs)" by blast
    let ?first = "questions ! (rnd 0 mod length questions)"
    from ne have first: "?first \<in> set questions" by simp
    show ?thesis
    proof (cases "quiz_loop rnd questions xs 1 ?first")
      case None
      with runs [OF present pool ne mem] show ?thesis by simp
    next
      case (Some x)
      from quiz_loop_result [OF Some ne first] obtain q where "x = Inr q" by blast
      with Some runs [OF present pool ne mem]
      have "?R = Some (Inr (200, [(''success'', PBool True), (''question'', format_question q)]))"
        by simp
      then show ?thesis by (intro disjI2 exI [where x = q])
    qed
  qed
  have statuses: "(status_code r = 400 \<longleftrightarrow> ?missing) \<and>
      (status_code r = 500 \<longleftrightarrow> \<not> ?missing \<and> ?faults) \<and>
      (status_code r = 200 \<or> status_code r = 400 \<or> status_code r = 500)"
    if r: "?R = Some r"
  proof (cases "?missing")
    case True
    from missing [OF True] r have "status_code r = 400" by (auto simp: status_code_def)
    with True show ?thesis by simp
  next
    case present: False
    show ?thesis
    proof (cases "?faults")
      case True
      from faults [OF present True] r have "status_code r = 500" by (auto simp: status_code_def)
      with present True show ?thesis by simp
    next
      case False
      from answered [OF present False] r have "status_code r = 200"
        by (auto simp: status_code_def)
      with present False show ?thesis by simp
    qed
  qed
  have ends: "?R \<noteq> None \<longleftrightarrow>
      (\<exists>j. py_in (q_id (questions ! (rnd j mod length questions))) previous = Inr False)"
    if present: "\<not> ?missing" and pool: "quiz_questions cf s category = Inr questions"
      and ne: "questions \<noteq> []"
      and cont: "\<not> ((\<forall>l. previous \<noteq> PList l) \<and> (\<forall>d. previous \<noteq> PDict d))"
  proof -
    from cont obtain l d where "previous = PList l \<or> previous = PDict d" by blast
    from py_in_container [OF this] obtain xs
      where mem: "\<forall>n. py_in n previous = Inr (n \<in> set xs)" by blast
    let ?first = "questions ! (rnd 0 mod length questions)"
    let ?loop = "quiz_loop rnd questions xs 1 ?first"
    have ret: "?R \<noteq> None \<longleftrightarrow> ?loop \<noteq> None"
      unfolding runs [OF present pool ne mem] by (simp split: option.splits sum.splits)
    have elig: "py_in (q_id (questions ! (rnd j mod length questions))) previous = Inr False
        \<longleftrightarrow> q_id (questions ! (rnd j mod length questions)) \<notin> set xs" for j
      using mem by simp
    have stops: "?loop \<noteq> None"
      if "q_id (questions ! (rnd j mod length questions)) \<notin> set xs" for j
    proof (cases j)
      case 0
      with that have "q_id ?first \<notin> set xs" by simp
      then show ?thesis by (subst quiz_loop.simps) simp
    next
      case (Suc i)
      then have "1 \<le> j" by simp
      with ne that show ?thesis
        by (intro quiz_loop_stops [where j = j])
    qed
    have only: "\<exists>j. q_id (questions ! (rnd j mod length questions)) \<notin> set xs"
      if "?loop \<noteq> None"
    proof -
      from that obtain x where "?loop = Some x" by blast
      from quiz_loop_stops_only [OF this ne] show ?thesis by blast
    qed
    from ret stops only show ?thesis unfolding elig by blast
  qed
  from missing faults answered statuses ends show ?thesis by blast
qed

lemma quiz_json_example_run:
  "quiz_get_next_question_json (\<lambda>i rows. Inl DBAPIError) id
     \<lparr>questions_tbl = [\<lparr>q_id = 1, q_question = ''q'', q_answer = ''a'', q_difficulty = 1, q_category = 4\<rparr>,
                       \<lparr>q_id = 2, q_question = ''r'', q_answer = ''b'', q_difficulty = 1, q_category = 4\<rparr>],
      categories_tbl = []\<rparr>
     [(''previous_questions'', PList [PInt 1]),
      (''quiz_category'', PDict [(PStr ''type'', PStr ''History''), (PStr ''id'', PInt 4)])]
   = Some (Inr (200, [(''success'', PBool True),
                      (''question'', format_question \<lparr>q_id = 2, q_question = ''r'', q_answer = ''b'', q_difficulty = 1, q_category = 4\<rparr>)]))"
proof -
  let ?q1 = "\<lparr>q_id = 1, q_question = ''q'', q_answer = ''a'', q_difficulty = 1, q_category = 4\<rparr>"
  let ?q2 = "\<lparr>q_id = 2, q_question = ''r'', q_answer = ''b'', q_difficulty = 1, q_category = 4\<rparr>"
  let ?s = "\<lparr>questions_tbl = [?q1, ?q2], categories_tbl = []\<rparr>"
  let ?c = "PDict [(PStr ''type'', PStr ''History''), (PStr ''id'', PInt 4)]"
  let ?d = "[(''previous_questions'', PList [PInt 1]), (''quiz_category'', ?c)]"
  let ?cf = "\<lambda>i rows. Inl DBAPIError :: py_exception + Question list"
  have p: "dict_get ?d ''previous_questions'' PNone = PList [PInt 1]"
    by (simp add: dict_get_def)
  have c: "dict_get ?d ''quiz_category'' PNone = ?c"
    by (simp add: dict_get_def)
  have pool: "quiz_questions ?cf ?s ?c = Inr [?q1, ?q2]"
    by (simp add: quiz_questions_def subscript_def py_eq_int_def query_filter_by_category_def)
  have second: "quiz_loop_json id [?q1, ?q2] (PList [PInt 1]) (Suc (Suc 0)) ?q2 = Some (Inr ?q2)"
    by (subst quiz_loop_json.simps) (simp add: py_in_def py_eq_int_def)
  have draw: "get_random_question id (Suc 0) [?q1, ?q2] = Inr ?q2"
    by (simp add: get_random_question_nonempty)
  have loop: "quiz_loop_json id [?q1, ?q2] (PList [PInt 1]) (Suc 0) ?q1 = Some (Inr ?q2)"
    by (subst quiz_loop_json.simps) (simp add: py_in_def py_eq_int_def draw second)
  have "quiz_get_next_question_json ?cf id ?s ?d =
     (case quiz_loop_json id [?q1, ?q2] (dict_get ?d ''previous_questions'' PNone) 1
             ([?q1, ?q2] ! (id 0 mod length [?q1, ?q2])) of
        None \<Rightarrow> None
      | Some (Inl e) \<Rightarrow> Some (Inl (Unhandled e))
      | Some (Inr q) \<Rightarrow>
          Some (Inr (200, [(''success'', PBool True), (''question'', format_question q)])))"
    by (rule quiz_json_draws) (simp_all only: p c pool, simp_all)
  then show ?thesis by (simp add: p loop)
qed

text \<open>
  Claim C9, as stated, says that every request with both fields present succeeds with
  200. With both fields present and a category without questions, the first draw is
  \<^verbatim>\<open>random.randint(0, -1)\<close>, which raises \<^verbatim>\<open>ValueError\<close>; nothing catches it and
  the request ends with status 500.
\<close>

theorem quiz_status_counterexample:
  "dict_get [(''previous_questions'', PList []),
             (''quiz_category'', PDict [(PStr ''type'', PStr ''History''), (PStr ''id'', PInt 4)])]
     ''previous_questions'' PNone = PList [] \<and>
   dict_get [(''previous_questions'', PList []),
             (''quiz_category'', PDict [(PStr ''type'', PStr ''History''), (PStr ''id'', PInt 4)])]
     ''quiz_category'' PNone = PDict [(PStr ''type'', PStr ''History''), (PStr ''id'', PInt 4)] \<and>
   quiz_get_next_question_json (\<lambda>i rows. Inl DBAPIError) id
     \<lparr>questions_tbl = [], categories_tbl = []\<rparr>
     [(''previous_questions'', PList []),
      (''quiz_category'', PDict [(PStr ''type'', PStr ''History''), (PStr ''id'', PInt 4)])]
     = Some (Inl (Unhandled ValueError)) \<and>
   status_code (Inl (Unhandled ValueError)) = 500"
proof -
  let ?s = "\<lparr>questions_tbl = [], categories_tbl = []\<rparr>"
  let ?c = "PDict [(PStr ''type'', PStr ''History''), (PStr ''id'', PInt 4)]"
  let ?d = "[(''previous_questions'', PList []), (''quiz_category'', ?c)]"
  let ?cf = "\<lambda>i rows. Inl DBAPIError :: py_exception + Question list"
  have p: "dict_get ?d ''previous_questions'' PNone = PList []"
    by (simp add: dict_get_def)
  have c: "dict_get ?d ''quiz_category'' PNone = ?c"
    by (simp add: dict_get_def)
  have pool: "quiz_questions ?cf ?s (dict_get ?d ''quiz_category'' PNone) = Inr []"
    unfolding c
    by (simp add: quiz_questions_def subscript_def py_eq_int_def query_filter_by_category_def)
  have r: "quiz_get_next_question_json ?cf id ?s ?d = Some (Inl (Unhandled ValueError))"
    by (rule quiz_json_pool_empty [OF _ _ pool]) (simp_all only: p c, simp_all)
  have st: "status_code (Inl (Unhandled ValueError)) = 500" by (simp add: status_code_def)
  show ?thesis by (rule conjI [OF p conjI [OF c conjI [OF r st]]])
qed

theorem quiz_status_exact_witness:
  "quiz_get_next_question_json (\<lambda>i rows. Inl DBAPIError) id
     \<lparr>questions_tbl = [], categories_tbl = []\<rparr> [(''previous_questions'', PList [])]
     = Some (Inl (Abort 400)) \<and>
   (\<exists>e. quiz_get_next_question_json (\<lambda>i rows. Inl DBAPIError) id
          \<lparr>questions_tbl = [\<lparr>q_id = 1, q_question = ''q'', q_answer = ''a'', q_difficulty = 1, q_category = 4\<rparr>],
           categories_tbl = []\<rparr>
          [(''previous_questions'', PInt 5), (''quiz_category'', PDict [(PStr ''id'', PInt 0)])]
        = Some (Inl (Unhandled e))) \<and>
   quiz_get_next_question_json (\<lambda>i rows. Inl DBAPIError) id
     \<lparr>questions_tbl = [\<lparr>q_id = 1, q_question = ''q'', q_answer = ''a'', q_difficulty = 1, q_category = 4\<rparr>,
                       \<lparr>q_id = 2, q_question = ''r'', q_answer = ''b'', q_difficulty = 1, q_category = 4\<rparr>],
      categories_tbl = []\<rparr>
     [(''previous_questions'', PList [PInt 1]),
      (''quiz_category'', PDict [(PStr ''type'', PStr ''History''), (PStr ''id'', PInt 4)])]
     \<noteq> None \<and>
   status_code (Inr (200, [(''success'', PBool True),
      (''question'', format_question \<lparr>q_id = 2, q_question = ''r'', q_answer = ''b'', q_difficulty = 1, q_category = 4\<rparr>)]))
     \<noteq> 500"
proof -
  let ?q1 = "\<lparr>q_id = 1, q_question = ''q'', q_answer = ''a'', q_difficulty = 1, q_category = 4\<rparr>"
  let ?q2 = "\<lparr>q_id = 2, q_question = ''r'', q_answer = ''b'', q_difficulty = 1, q_category = 4\<rparr>"
  let ?s0 = "\<lparr>questions_tbl = [], categories_tbl = []\<rparr>"
  let ?s1 = "\<lparr>questions_tbl = [?q1], categories_tbl = []\<rparr>"
  let ?s2 = "\<lparr>questions_tbl = [?q1, ?q2], categories_tbl = []\<rparr>"
  let ?cf = "\<lambda>i rows. Inl DBAPIError :: py_exception + Question list"
  let ?c0 = "PDict [(PStr ''id'', PInt 0)]"
  let ?c4 = "PDict [(PStr ''type'', PStr ''History''), (PStr ''id'', PInt 4)]"
  let ?d0 = "[(''previous_questions'', PList [])]"
  let ?d1 = "[(''previous_questions'', PInt 5), (''quiz_category'', ?c0)]"
  let ?d2 = "[(''previous_questions'', PList [PInt 1]), (''quiz_category'', ?c4)]"
  let ?r = "Inr (200, [(''success'', PBool True), (''question'', format_question ?q2)]) :: result"
  \<comment> \<open>a missing field\<close>
  have p0: "PList [] = dict_get ?d0 ''previous_questions'' PNone" by (simp add: dict_get_def)
  have c0: "PNone = dict_get ?d0 ''quiz_category'' PNone" by (simp add: dict_get_def)
  have m0: "PNone = PNone \<or> PList [] = PNone" by simp
  note a = quiz_status_exact [where data = ?d0 and cf = ?cf and rnd = id and s = ?s0,
      OF p0 c0, THEN conjunct1, THEN mp, OF m0]
  \<comment> \<open>a value of \<open>previous_questions\<close> that cannot be searched\<close>
  have p1: "PInt 5 = dict_get ?d1 ''previous_questions'' PNone" by (simp add: dict_get_def)
  have c1: "?c0 = dict_get ?d1 ''quiz_category'' PNone" by (simp add: dict_get_def)
  have f1: "?c0 \<noteq> PNone \<and> PInt 5 \<noteq> PNone \<and>
      ((\<exists>e. quiz_questions ?cf ?s1 ?c0 = Inl e) \<or> quiz_questions ?cf ?s1 ?c0 = Inr [] \<or>
       (\<forall>l. PInt 5 \<noteq> PList l) \<and> (\<forall>d. PInt 5 \<noteq> PDict d))"
    by simp
  note b = quiz_status_exact [where data = ?d1 and cf = ?cf and rnd = id and s = ?s1,
      OF p1 c1, THEN conjunct2, THEN conjunct1, THEN mp, OF f1]
  \<comment> \<open>a request that is answered\<close>
  have p2: "PList [PInt 1] = dict_get ?d2 ''previous_questions'' PNone" by (simp add: dict_get_def)
  have c2: "?c4 = dict_get ?d2 ''quiz_category'' PNone" by (simp add: dict_get_def)
  have pool: "quiz_questions ?cf ?s2 ?c4 = Inr [?q1, ?q2]"
    by (simp add: quiz_questions_def subscript_def py_eq_int_def query_filter_by_category_def)
  have ne: "[?q1, ?q2] \<noteq> []" by simp
  have cont: "\<not> ((\<forall>l. PList [PInt 1] \<noteq> PList l) \<and> (\<forall>d. PList [PInt 1] \<noteq> PDict d))" by simp
  have pres: "?c4 \<noteq> PNone" "PList [PInt 1] \<noteq> PNone" by simp_all
  have "py_in (q_id ([?q1, ?q2] ! (id 1 mod length [?q1, ?q2]))) (PList [PInt 1]) = Inr False"
    by (simp add: py_in_def py_eq_int_def)
  then have ex: "\<exists>j. py_in (q_id ([?q1, ?q2] ! (id j mod length [?q1, ?q2]))) (PList [PInt 1])
      = Inr False"
    by (rule exI [where x = 1 and
          P = "\<lambda>j. py_in (q_id ([?q1, ?q2] ! (id j mod length [?q1, ?q2]))) (PList [PInt 1])
                 = Inr False"])
  note t = quiz_status_exact [where data = ?d2 and cf = ?cf and rnd = id and s = ?s2
      and questions = "[?q1, ?q2]",
      OF p2 c2, THEN conjunct2, THEN conjunct2, THEN conjunct2, THEN conjunct2, THEN mp,
      OF conjI [OF pres(1) conjI [OF pres(2) conjI [OF pool conjI [OF ne cont]]]],
      THEN iffD2, OF ex]
  \<comment> \<open>and its status\<close>
  have nf: "\<not> (?c4 \<noteq> PNone \<and> PList [PInt 1] \<noteq> PNone \<and>
      ((\<exists>e. quiz_questions ?cf ?s2 ?c4 = Inl e) \<or> quiz_questions ?cf ?s2 ?c4 = Inr [] \<or>
       (\<forall>l. PList [PInt 1] \<noteq> PList l) \<and> (\<forall>d. PList [PInt 1] \<noteq> PDict d)))"
    unfolding pool by simp
  note st = quiz_status_exact [where data = ?d2 and cf = ?cf and rnd = id and s = ?s2
      and r = ?r,
      OF p2 c2, THEN conjunct2, THEN conjunct2, THEN conjunct2, THEN conjunct1, THEN mp,
      OF quiz_json_example_run, THEN conjunct2, THEN conjunct1]
  have d: "status_code ?r \<noteq> 500"
  proof
    assume "status_code ?r = 500"
    from nf st [THEN iffD1, OF this] show False by (rule notE)
  qed
  show ?thesis by (rule conjI [OF a conjI [OF b conjI [OF t d]]])
qed

text \<open>
  On a body of the shape the spec gives, a list of integers and a category object with an
  integer \<^verbatim>\<open>id\<close>, the handler on the raw body is the handler on the typed body.
\<close>

lemma py_in_int_list: "py_in n (PList (map PInt xs)) = Inr (n \<in> set xs)"
  by (auto simp: py_in_def py_eq_int_def list_ex_iff)

lemma quiz_questions_int_id:
  "map_of d (PStr ''id'') = Some (PInt i) \<Longrightarrow> quiz_questions cf s (PDict d) = Inr (quiz_pool s i)"
  by (simp add: quiz_questions_def subscript_def py_eq_int_def quiz_pool_def)

lemma quiz_get_next_question_json_typed:
  assumes p: "dict_get data ''previous_questions'' PNone = PList (map PInt xs)"
    and c: "dict_get data ''quiz_category'' PNone = PDict d"
    and i: "map_of d (PStr ''id'') = Some (PInt i)"
  shows "quiz_get_next_question_json cf rnd s data =
     quiz_get_next_question rnd s
       \<lparr>previous_questions = Some xs, quiz_category = Some \<lparr>qc_type = t, qc_id = i\<rparr>\<rparr>"
proof -
  have loop: "quiz_loop_json rnd questions (PList (map PInt xs)) k q
      = quiz_loop rnd questions xs k q" for questions k q
    by (rule quiz_loop_json_typed) (simp add: py_in_int_list)
  show ?thesis
    by (simp add: quiz_get_next_question_json_def quiz_get_next_question_def Let_def p c
        quiz_questions_int_id [OF i] loop split: sum.splits)
qed

end
